theory Spec2Isabelle
  imports Main
begin

section \<open>Data model (models/Task.ts)\<close>

text \<open>
  A JavaScript \<^verbatim>\<open>Date\<close> is modelled by the integer that \<^verbatim>\<open>getTime()\<close> returns
  (milliseconds since the epoch); every \<^verbatim>\<open>new Date()\<close> of the source is a parameter of
  the function that performs it, and so is every freshly generated id
  (\<^verbatim>\<open>task_${Date.now()}_${Math.random()...}\<close>). Numbers are integers. Optional
  properties (\<^verbatim>\<open>x?: T\<close>) are options, \<open>None\<close> standing for \<^verbatim>\<open>undefined\<close>.
\<close>

type_synonym date = int

datatype error = Error string

datatype task_status = Todo | InProgress | Done | Cancelled

datatype task_priority = Low | Medium | High

datatype session_type = Pomodoro | ShortBreak | LongBreak

record Task =
  t_id :: string
  t_noteId :: "string option"
  t_title :: string
  t_description :: "string option"
  t_status :: task_status
  t_priority :: task_priority
  t_dueDate :: "date option"
  t_estimatedMinutes :: "int option"
  t_actualMinutes :: int
  t_tags :: "string list"
  t_createdAt :: date
  t_updatedAt :: date
  t_completedAt :: "date option"

record CreateTaskDto =
  c_noteId :: "string option"
  c_title :: string
  c_description :: "string option"
  c_priority :: "task_priority option"
  c_dueDate :: "date option"
  c_estimatedMinutes :: "int option"
  c_tags :: "string list option"

text \<open>
  A partial (\<^verbatim>\<open>UpdateTaskDto\<close>, \<^verbatim>\<open>UpdateSessionDto\<close>) is merged by object spread,
  \<^verbatim>\<open>{...stored, ...dto}\<close>: a key that is absent from the dto keeps the stored value, a
  key that is present replaces it. The outer option of each field says whether the key is
  present (\<open>None\<close>: absent). Where the stored property is itself optional the key may be
  present with the value \<^verbatim>\<open>undefined\<close> (\<open>Some None\<close>), as \<^verbatim>\<open>stopTask\<close> does for
  \<^verbatim>\<open>achievement\<close> and \<^verbatim>\<open>pending\<close>; the key of a required property, when present,
  holds a value of the property's type. The field \<open>u_actualMinutes\<close> is the key
  \<^verbatim>\<open>actualMinutes\<close> that \<^verbatim>\<open>updateSession\<close> passes to \<^verbatim>\<open>updateTask\<close>; the declared
  interface \<^verbatim>\<open>UpdateTaskDto\<close> has no such key.
\<close>

record UpdateTaskDto =
  u_title :: "string option"
  u_description :: "string option option"
  u_status :: "task_status option"
  u_priority :: "task_priority option"
  u_dueDate :: "date option option"
  u_estimatedMinutes :: "int option option"
  u_tags :: "string list option"
  u_actualMinutes :: "int option"

record TaskSession =
  s_id :: string
  s_taskId :: string
  s_startedAt :: date
  s_endedAt :: "date option"
  s_durationMinutes :: int
  s_type :: session_type
  s_completed :: bool
  s_achievement :: "string option"
  s_pending :: "string option"
  s_notes :: "string option"

record CreateSessionDto =
  cs_taskId :: string
  cs_type :: "session_type option"

record UpdateSessionDto =
  us_endedAt :: "date option option"
  us_durationMinutes :: "int option"
  us_completed :: "bool option"
  us_achievement :: "string option option"
  us_pending :: "string option option"
  us_notes :: "string option option"

record PomodoroSettings =
  workDuration :: int
  shortBreakDuration :: int
  longBreakDuration :: int
  sessionsUntilLongBreak :: int
  autoStartBreaks :: bool
  autoStartPomodoros :: bool

definition DEFAULT_POMODORO_SETTINGS :: PomodoroSettings where
  "DEFAULT_POMODORO_SETTINGS =
     \<lparr> workDuration = 25, shortBreakDuration = 5, longBreakDuration = 15,
       sessionsUntilLongBreak = 4, autoStartBreaks = False, autoStartPomodoros = False \<rparr>"

definition emptyUpdateTaskDto :: UpdateTaskDto where
  "emptyUpdateTaskDto =
     \<lparr> u_title = None, u_description = None, u_status = None, u_priority = None,
       u_dueDate = None, u_estimatedMinutes = None, u_tags = None, u_actualMinutes = None \<rparr>"

section \<open>The local-storage task service (LocalTaskService.ts)\<close>

text \<open>
  The two local-storage keys hold the JSON of a task array and of a session array;
  \<^verbatim>\<open>getTasks\<close>/\<^verbatim>\<open>getSessions\<close> parse them (an absent key is the empty array) and
  \<^verbatim>\<open>saveTasks\<close>/\<^verbatim>\<open>saveSessions\<close> write them back. The storage is the pair of lists.
  A service method returns the storage it leaves behind together with its result, the
  result being \<open>Inl\<close> of the error it throws or \<open>Inr\<close> of the value it resolves to.
\<close>

record storage =
  tasks :: "Task list"
  sessions :: "TaskSession list"

definition empty_storage :: storage where
  "empty_storage = \<lparr> tasks = [], sessions = [] \<rparr>"

text \<open>\<^verbatim>\<open>Array.prototype.findIndex\<close>: the first index whose element passes, \<open>None\<close> for -1.\<close>

fun findIndex :: "('a \<Rightarrow> bool) \<Rightarrow> 'a list \<Rightarrow> nat option" where
  "findIndex P [] = None"
| "findIndex P (x # xs) = (if P x then Some 0 else map_option Suc (findIndex P xs))"

text \<open>One key of an object spread: the dto's value when the key is present.\<close>

definition spread :: "'a \<Rightarrow> 'a option \<Rightarrow> 'a" where
  "spread stored given = (case given of None \<Rightarrow> stored | Some v \<Rightarrow> v)"

definition getAllTasks :: "storage \<Rightarrow> Task list" where
  "getAllTasks st = tasks st"

definition getTaskById :: "storage \<Rightarrow> string \<Rightarrow> Task option" where
  "getTaskById st i = find (\<lambda>task. t_id task = i) (tasks st)"

definition getTasksByNote :: "storage \<Rightarrow> string \<Rightarrow> Task list" where
  "getTasksByNote st n = filter (\<lambda>task. t_noteId task = Some n) (tasks st)"

definition createTask :: "storage \<Rightarrow> CreateTaskDto \<Rightarrow> string \<Rightarrow> date \<Rightarrow> storage \<times> Task" where
  "createTask st dto newId now =
     (let newTask =
        \<lparr> t_id = newId,
          t_noteId = c_noteId dto,
          t_title = c_title dto,
          t_description = c_description dto,
          t_status = Todo,
          t_priority = (case c_priority dto of None \<Rightarrow> Medium | Some p \<Rightarrow> p),
          t_dueDate = c_dueDate dto,
          t_estimatedMinutes = c_estimatedMinutes dto,
          t_actualMinutes = 0,
          t_tags = (case c_tags dto of None \<Rightarrow> [] | Some ts \<Rightarrow> ts),
          t_createdAt = now,
          t_updatedAt = now,
          t_completedAt = None \<rparr>
      in (st\<lparr> tasks := tasks st @ [newTask] \<rparr>, newTask))"

text \<open>
  \<^verbatim>\<open>updateTask\<close> reads the clock twice: \<open>now1\<close> is the \<^verbatim>\<open>new Date()\<close> of
  \<^verbatim>\<open>updatedAt\<close>, \<open>now2\<close> the one of \<^verbatim>\<open>completedAt\<close>.
\<close>

definition mergeTask :: "Task \<Rightarrow> UpdateTaskDto \<Rightarrow> date \<Rightarrow> date \<Rightarrow> Task" where
  "mergeTask stored dto now1 now2 =
     stored\<lparr> t_title := spread (t_title stored) (u_title dto),
             t_description := spread (t_description stored) (u_description dto),
             t_status := spread (t_status stored) (u_status dto),
             t_priority := spread (t_priority stored) (u_priority dto),
             t_dueDate := spread (t_dueDate stored) (u_dueDate dto),
             t_estimatedMinutes := spread (t_estimatedMinutes stored) (u_estimatedMinutes dto),
             t_tags := spread (t_tags stored) (u_tags dto),
             t_actualMinutes := spread (t_actualMinutes stored) (u_actualMinutes dto),
             t_updatedAt := now1,
             t_completedAt :=
               (if u_status dto = Some Done \<and> t_completedAt stored = None
                then Some now2 else t_completedAt stored) \<rparr>"

definition updateTask ::
  "storage \<Rightarrow> string \<Rightarrow> UpdateTaskDto \<Rightarrow> date \<Rightarrow> date \<Rightarrow> storage \<times> (error + Task)" where
  "updateTask st i dto now1 now2 =
     (case findIndex (\<lambda>task. t_id task = i) (tasks st) of
        None \<Rightarrow> (st, Inl (Error ''Task not found''))
      | Some index \<Rightarrow>
          (let updatedTask = mergeTask (tasks st ! index) dto now1 now2
           in (st\<lparr> tasks := (tasks st)[index := updatedTask] \<rparr>, Inr updatedTask)))"

definition deleteTask :: "storage \<Rightarrow> string \<Rightarrow> storage \<times> (error + unit)" where
  "deleteTask st i = (st\<lparr> tasks := filter (\<lambda>task. t_id task \<noteq> i) (tasks st) \<rparr>, Inr ())"

text \<open>
  \<^verbatim>\<open>String.prototype.trim\<close> on the ASCII white space and line terminators (tab, line
  feed, vertical tab, form feed, carriage return, space).
\<close>

definition is_white_space :: "char \<Rightarrow> bool" where
  "is_white_space c = (of_char c \<in> {9, 10, 11, 12, 13, 32 :: nat})"

definition trim :: "string \<Rightarrow> string" where
  "trim s = rev (dropWhile is_white_space (rev (dropWhile is_white_space s)))"

text \<open>
  \<^verbatim>\<open>createTasksFromNote\<close>: one \<^verbatim>\<open>createTask\<close> per title, in input order; each title
  comes with the id and the clock reading of its \<^verbatim>\<open>createTask\<close> call.
\<close>

fun createTasksFromNote ::
  "storage \<Rightarrow> string \<Rightarrow> (string \<times> string \<times> date) list \<Rightarrow> storage \<times> Task list" where
  "createTasksFromNote st noteId [] = (st, [])"
| "createTasksFromNote st noteId ((title, newId, now) # rest) =
     (let (st1, task) =
            createTask st
              \<lparr> c_noteId = Some noteId, c_title = trim title, c_description = None,
                c_priority = Some Medium, c_dueDate = None, c_estimatedMinutes = None,
                c_tags = None \<rparr> newId now;
          (st2, createdTasks) = createTasksFromNote st1 noteId rest
      in (st2, task # createdTasks))"

definition getSessionsByTask :: "storage \<Rightarrow> string \<Rightarrow> TaskSession list" where
  "getSessionsByTask st taskId = filter (\<lambda>session. s_taskId session = taskId) (sessions st)"

definition createSession ::
  "storage \<Rightarrow> CreateSessionDto \<Rightarrow> string \<Rightarrow> date \<Rightarrow> storage \<times> TaskSession" where
  "createSession st dto newId now =
     (let newSession =
        \<lparr> s_id = newId,
          s_taskId = cs_taskId dto,
          s_startedAt = now,
          s_endedAt = None,
          s_durationMinutes = 0,
          s_type = (case cs_type dto of None \<Rightarrow> Pomodoro | Some ty \<Rightarrow> ty),
          s_completed = False,
          s_achievement = None,
          s_pending = None,
          s_notes = None \<rparr>
      in (st\<lparr> sessions := sessions st @ [newSession] \<rparr>, newSession))"

definition mergeSession :: "TaskSession \<Rightarrow> UpdateSessionDto \<Rightarrow> TaskSession" where
  "mergeSession stored dto =
     stored\<lparr> s_endedAt := spread (s_endedAt stored) (us_endedAt dto),
             s_durationMinutes := spread (s_durationMinutes stored) (us_durationMinutes dto),
             s_completed := spread (s_completed stored) (us_completed dto),
             s_achievement := spread (s_achievement stored) (us_achievement dto),
             s_pending := spread (s_pending stored) (us_pending dto),
             s_notes := spread (s_notes stored) (us_notes dto) \<rparr>"

text \<open>
  \<^verbatim>\<open>updateSession\<close> saves the merged session first; then, when
  \<^verbatim>\<open>dto.durationMinutes\<close> is truthy (present and not 0), it looks the owning task up and
  credits it through \<^verbatim>\<open>updateTask\<close>, whose two clock readings are \<open>now1\<close>, \<open>now2\<close>.
  An error of that \<^verbatim>\<open>updateTask\<close> would leave the saved session behind.
\<close>

definition updateSession ::
  "storage \<Rightarrow> string \<Rightarrow> UpdateSessionDto \<Rightarrow> date \<Rightarrow> date \<Rightarrow> storage \<times> (error + TaskSession)" where
  "updateSession st i dto now1 now2 =
     (case findIndex (\<lambda>session. s_id session = i) (sessions st) of
        None \<Rightarrow> (st, Inl (Error ''Session not found''))
      | Some index \<Rightarrow>
          (let updatedSession = mergeSession (sessions st ! index) dto;
               st1 = st\<lparr> sessions := (sessions st)[index := updatedSession] \<rparr>
           in (case us_durationMinutes dto of
                 None \<Rightarrow> (st1, Inr updatedSession)
               | Some d \<Rightarrow>
                   if d = 0 then (st1, Inr updatedSession)
                   else (case getTaskById st1 (s_taskId updatedSession) of
                           None \<Rightarrow> (st1, Inr updatedSession)
                         | Some task \<Rightarrow>
                             (case updateTask st1 (t_id task)
                                     (emptyUpdateTaskDto
                                        \<lparr> u_actualMinutes := Some (t_actualMinutes task + d) \<rparr>)
                                     now1 now2 of
                                (st2, Inl e) \<Rightarrow> (st2, Inl e)
                              | (st2, Inr _) \<Rightarrow> (st2, Inr updatedSession))))))"

definition getActiveSession :: "storage \<Rightarrow> TaskSession option" where
  "getActiveSession st =
     find (\<lambda>session. s_endedAt session = None \<and> \<not> s_completed session) (sessions st)"

definition getTotalTimeSpent :: "storage \<Rightarrow> string \<Rightarrow> int" where
  "getTotalTimeSpent st taskId =
     foldl (\<lambda>total session. total + s_durationMinutes session) 0 (getSessionsByTask st taskId)"

section \<open>The view model (useTaskViewModel.ts, taskAtoms.ts)\<close>

record PomodoroTimerState =
  isRunning :: bool
  isPaused :: bool
  timeRemaining :: int
  totalTime :: int
  sessionType :: session_type
  completedPomodoros :: int

text \<open>The initial value of \<^verbatim>\<open>pomodoroTimerAtom\<close>.\<close>

definition pomodoroTimerAtom :: PomodoroTimerState where
  "pomodoroTimerAtom =
     \<lparr> isRunning = False, isPaused = False, timeRemaining = 25 * 60, totalTime = 25 * 60,
       sessionType = Pomodoro, completedPomodoros = 0 \<rparr>"

text \<open>\<^verbatim>\<open>Partial<PomodoroSettings>\<close>, the argument of \<^verbatim>\<open>updatePomodoroSettings\<close>.\<close>

record PomodoroSettingsPartial =
  p_workDuration :: "int option"
  p_shortBreakDuration :: "int option"
  p_longBreakDuration :: "int option"
  p_sessionsUntilLongBreak :: "int option"
  p_autoStartBreaks :: "bool option"
  p_autoStartPomodoros :: "bool option"

text \<open>
  The state of the running application: the local storage behind the service and the
  atoms the view model reads and writes. The atoms of the panel's layout
  (\<^verbatim>\<open>taskPanelOpenAtom\<close>, \<^verbatim>\<open>showCompletedTasksAtom\<close>) take no part in the engine and are
  left out. Every action of the view model runs to its end before the next one starts,
  and reads the atoms as the previous one left them.
\<close>

record vm_state =
  store :: storage
  tasksAtom :: "Task list"
  activeTaskIdAtom :: "string option"
  currentSessionAtom :: "TaskSession option"
  timerState :: PomodoroTimerState
  pomodoroSettings :: PomodoroSettings
  taskSessionsAtom :: "TaskSession list"
  errorAtom :: "string option"

definition initial_state :: vm_state where
  "initial_state =
     \<lparr> store = empty_storage, tasksAtom = [], activeTaskIdAtom = None,
       currentSessionAtom = None, timerState = pomodoroTimerAtom,
       pomodoroSettings = DEFAULT_POMODORO_SETTINGS, taskSessionsAtom = [],
       errorAtom = None \<rparr>"

text \<open>\<^verbatim>\<open>setError(err instanceof Error ? err.message : ...)\<close>; every error is an \<^verbatim>\<open>Error\<close>.\<close>

fun setError :: "error \<Rightarrow> vm_state \<Rightarrow> vm_state" where
  "setError (Error message) s = s\<lparr> errorAtom := Some message \<rparr>"

definition loadTasks :: "vm_state \<Rightarrow> vm_state" where
  "loadTasks s =
     (let s1 = s\<lparr> tasksAtom := getAllTasks (store s) \<rparr>
      in (case getActiveSession (store s) of
            None \<Rightarrow> s1
          | Some activeSession \<Rightarrow>
              s1\<lparr> currentSessionAtom := Some activeSession,
                  activeTaskIdAtom := Some (s_taskId activeSession) \<rparr>))"

definition vm_createTask ::
  "vm_state \<Rightarrow> CreateTaskDto \<Rightarrow> string \<Rightarrow> date \<Rightarrow> vm_state \<times> (error + Task)" where
  "vm_createTask s dto newId now =
     (let (st1, task) = createTask (store s) dto newId now
      in (s\<lparr> store := st1, tasksAtom := tasksAtom s @ [task] \<rparr>, Inr task))"

definition vm_updateTask ::
  "vm_state \<Rightarrow> string \<Rightarrow> UpdateTaskDto \<Rightarrow> date \<Rightarrow> date \<Rightarrow> vm_state \<times> (error + Task)" where
  "vm_updateTask s i dto now1 now2 =
     (case updateTask (store s) i dto now1 now2 of
        (st1, Inl err) \<Rightarrow> (setError err (s\<lparr> store := st1 \<rparr>), Inl err)
      | (st1, Inr updated) \<Rightarrow>
          (s\<lparr> store := st1,
              tasksAtom := map (\<lambda>task. if t_id task = i then updated else task) (tasksAtom s) \<rparr>,
           Inr updated))"

definition vm_deleteTask :: "vm_state \<Rightarrow> string \<Rightarrow> vm_state \<times> (error + unit)" where
  "vm_deleteTask s i =
     (case deleteTask (store s) i of
        (st1, Inl err) \<Rightarrow> (setError err (s\<lparr> store := st1 \<rparr>), Inl err)
      | (st1, Inr _) \<Rightarrow>
          (s\<lparr> store := st1, tasksAtom := filter (\<lambda>task. t_id task \<noteq> i) (tasksAtom s) \<rparr>,
           Inr ()))"

definition vm_createTasksFromNote ::
  "vm_state \<Rightarrow> string \<Rightarrow> (string \<times> string \<times> date) list \<Rightarrow> vm_state \<times> (error + Task list)" where
  "vm_createTasksFromNote s noteId taskTitles =
     (let (st1, created) = createTasksFromNote (store s) noteId taskTitles
      in (s\<lparr> store := st1, tasksAtom := tasksAtom s @ created \<rparr>, Inr created))"

text \<open>
  \<^verbatim>\<open>startTask\<close>: \<open>now1\<close>, \<open>now2\<close> are the clock readings of its \<^verbatim>\<open>updateTask\<close>,
  \<open>newId\<close> and \<open>now3\<close> the id and the \<^verbatim>\<open>startedAt\<close> of the session it creates.
\<close>

definition startTask ::
  "vm_state \<Rightarrow> string \<Rightarrow> date \<Rightarrow> date \<Rightarrow> string \<Rightarrow> date \<Rightarrow> vm_state \<times> (error + unit)" where
  "startTask s taskId now1 now2 newId now3 =
     (case vm_updateTask s taskId (emptyUpdateTaskDto\<lparr> u_status := Some InProgress \<rparr>) now1 now2 of
        (s1, Inl err) \<Rightarrow> (setError err s1, Inl err)
      | (s1, Inr _) \<Rightarrow>
          (let (st2, session) =
                 createSession (store s1) \<lparr> cs_taskId = taskId, cs_type = None \<rparr> newId now3;
               workDuration = workDuration (pomodoroSettings s) * 60
           in (s1\<lparr> store := st2,
                   currentSessionAtom := Some session,
                   activeTaskIdAtom := Some taskId,
                   timerState :=
                     \<lparr> isRunning = True, isPaused = False, timeRemaining = workDuration,
                       totalTime = workDuration, sessionType = Pomodoro,
                       completedPomodoros = completedPomodoros (timerState s) \<rparr> \<rparr>,
               Inr ())))"

definition togglePause :: "vm_state \<Rightarrow> vm_state" where
  "togglePause s = s\<lparr> timerState := (timerState s)\<lparr> isPaused := \<not> isPaused (timerState s) \<rparr> \<rparr>"

text \<open>
  \<^verbatim>\<open>stopTask\<close>: \<open>now\<close> is its own \<^verbatim>\<open>new Date()\<close>; \<open>now1\<close>, \<open>now2\<close> are the clock
  readings of the \<^verbatim>\<open>updateTask\<close> inside \<^verbatim>\<open>updateSession\<close>. \<open>closing\<close> is the
  partial it hands to \<^verbatim>\<open>updateSession\<close>; \<^verbatim>\<open>Math.floor\<close> of the quotient is the integer
  division \<open>div\<close>, which rounds down. \<^verbatim>\<open>if (activeTaskId)\<close> passes for an id that is
  neither \<^verbatim>\<open>null\<close> nor the empty string.
\<close>

definition closing ::
  "TaskSession \<Rightarrow> PomodoroTimerState \<Rightarrow> string option \<Rightarrow> string option \<Rightarrow> date \<Rightarrow> UpdateSessionDto" where
  "closing currentSession timer achievement pending now =
     (let duration = (now - s_startedAt currentSession) div 1000 div 60
      in \<lparr> us_endedAt = Some (Some now),
           us_durationMinutes = Some duration,
           us_completed = Some (timeRemaining timer \<le> 0),
           us_achievement = Some achievement,
           us_pending = Some pending,
           us_notes = None \<rparr>)"

definition stopTask ::
  "vm_state \<Rightarrow> string option \<Rightarrow> string option \<Rightarrow> date \<Rightarrow> date \<Rightarrow> date \<Rightarrow> vm_state \<times> (error + unit)" where
  "stopTask s achievement pending now now1 now2 =
     (case currentSessionAtom s of
        None \<Rightarrow> (s, Inr ())
      | Some currentSession \<Rightarrow>
          (case updateSession (store s) (s_id currentSession)
                  (closing currentSession (timerState s) achievement pending now) now1 now2 of
             (st1, Inl err) \<Rightarrow> (setError err (s\<lparr> store := st1 \<rparr>), Inl err)
           | (st1, Inr _) \<Rightarrow>
               (let s1 = s\<lparr> store := st1 \<rparr>;
                    s2 = (case activeTaskIdAtom s of
                            None \<Rightarrow> s1
                          | Some a \<Rightarrow>
                              if a = [] then s1
                              else s1\<lparr> taskSessionsAtom := getSessionsByTask st1 a \<rparr>)
                in (s2\<lparr> currentSessionAtom := None,
                        timerState :=
                          (timerState s)
                            \<lparr> isRunning := False, isPaused := False,
                              timeRemaining := workDuration (pomodoroSettings s) * 60 \<rparr> \<rparr>,
                    Inr ()))))"

definition completeTask ::
  "vm_state \<Rightarrow> string \<Rightarrow> date \<Rightarrow> date \<Rightarrow> vm_state \<times> (error + unit)" where
  "completeTask s taskId now1 now2 =
     (case vm_updateTask s taskId (emptyUpdateTaskDto\<lparr> u_status := Some Done \<rparr>) now1 now2 of
        (s1, Inl err) \<Rightarrow> (s1, Inl err)
      | (s1, Inr _) \<Rightarrow> (s1, Inr ()))"

definition loadTaskSessions :: "vm_state \<Rightarrow> string \<Rightarrow> vm_state" where
  "loadTaskSessions s taskId = s\<lparr> taskSessionsAtom := getSessionsByTask (store s) taskId \<rparr>"

definition mergeSettings :: "PomodoroSettings \<Rightarrow> PomodoroSettingsPartial \<Rightarrow> PomodoroSettings" where
  "mergeSettings prev settings =
     prev\<lparr> workDuration := spread (workDuration prev) (p_workDuration settings),
           shortBreakDuration := spread (shortBreakDuration prev) (p_shortBreakDuration settings),
           longBreakDuration := spread (longBreakDuration prev) (p_longBreakDuration settings),
           sessionsUntilLongBreak :=
             spread (sessionsUntilLongBreak prev) (p_sessionsUntilLongBreak settings),
           autoStartBreaks := spread (autoStartBreaks prev) (p_autoStartBreaks settings),
           autoStartPomodoros := spread (autoStartPomodoros prev) (p_autoStartPomodoros settings) \<rparr>"

definition updatePomodoroSettings :: "vm_state \<Rightarrow> PomodoroSettingsPartial \<Rightarrow> vm_state" where
  "updatePomodoroSettings s settings =
     s\<lparr> pomodoroSettings := mergeSettings (pomodoroSettings s) settings \<rparr>"

text \<open>
  The countdown effect: while \<^verbatim>\<open>isRunning && !isPaused\<close> an interval fires once a
  second and applies \<open>countdown\<close> to the timer state; otherwise no interval is set.
\<close>

definition countdown :: "PomodoroTimerState \<Rightarrow> PomodoroTimerState" where
  "countdown prev =
     (let newTime = timeRemaining prev - 1
      in if newTime \<le> 0
         then prev\<lparr> isRunning := False, timeRemaining := 0,
                    completedPomodoros := completedPomodoros prev + 1 \<rparr>
         else prev\<lparr> timeRemaining := newTime \<rparr>)"

definition tick :: "vm_state \<Rightarrow> vm_state" where
  "tick s =
     (if \<not> isRunning (timerState s) \<or> isPaused (timerState s) then s
      else s\<lparr> timerState := countdown (timerState s) \<rparr>)"

text \<open>
  Opening the application again: the atoms start from their initial values, the local
  storage and the stored settings (\<^verbatim>\<open>atomWithStorage\<close>) are kept, and the mount effect
  runs \<^verbatim>\<open>loadTasks\<close>.
\<close>

definition reload :: "vm_state \<Rightarrow> vm_state" where
  "reload s =
     loadTasks (initial_state\<lparr> store := store s, pomodoroSettings := pomodoroSettings s \<rparr>)"

section \<open>The engine as a state machine\<close>

text \<open>
  An operation is one action of the view model, with the clock readings and fresh ids it
  consumes, one firing of the countdown interval, or a restart of the application.
\<close>

datatype operation =
    LoadTasks
  | CreateTask CreateTaskDto string date
  | UpdateTask string UpdateTaskDto date date
  | DeleteTask string
  | CreateTasksFromNote string "(string \<times> string \<times> date) list"
  | StartTask string date date string date
  | TogglePause
  | StopTask "string option" "string option" date date date
  | CompleteTask string date date
  | LoadTaskSessions string
  | UpdatePomodoroSettings PomodoroSettingsPartial
  | SetActiveTaskId "string option"
  | Tick
  | Reload

fun step :: "vm_state \<Rightarrow> operation \<Rightarrow> vm_state" where
  "step s LoadTasks = loadTasks s"
| "step s (CreateTask dto newId now) = fst (vm_createTask s dto newId now)"
| "step s (UpdateTask i dto now1 now2) = fst (vm_updateTask s i dto now1 now2)"
| "step s (DeleteTask i) = fst (vm_deleteTask s i)"
| "step s (CreateTasksFromNote noteId taskTitles) = fst (vm_createTasksFromNote s noteId taskTitles)"
| "step s (StartTask taskId now1 now2 newId now3) = fst (startTask s taskId now1 now2 newId now3)"
| "step s TogglePause = togglePause s"
| "step s (StopTask achievement pending now now1 now2) =
     fst (stopTask s achievement pending now now1 now2)"
| "step s (CompleteTask taskId now1 now2) = fst (completeTask s taskId now1 now2)"
| "step s (LoadTaskSessions taskId) = loadTaskSessions s taskId"
| "step s (UpdatePomodoroSettings settings) = updatePomodoroSettings s settings"
| "step s (SetActiveTaskId a) = s\<lparr> activeTaskIdAtom := a \<rparr>"
| "step s Tick = tick s"
| "step s Reload = reload s"

text \<open>Running a sequence of operations, first to last.\<close>

fun exec :: "vm_state \<Rightarrow> operation list \<Rightarrow> vm_state" where
  "exec s [] = s"
| "exec s (x # xs) = exec (step s x) xs"

text \<open>
  A run checks, before each operation, a condition on the state and the operation; it
  is \<open>None\<close> as soon as one operation fails its condition.
\<close>

fun run :: "(vm_state \<Rightarrow> operation \<Rightarrow> bool) \<Rightarrow> vm_state \<Rightarrow> operation list \<Rightarrow> vm_state option" where
  "run ok s [] = Some s"
| "run ok s (x # xs) = (if ok s x then run ok (step s x) xs else None)"

text \<open>
  What the environment owes the engine. A generated task id is fresh: no stored task has
  it and no stored session refers to it. A generated session id is fresh. A partial handed to
  the view model's \<^verbatim>\<open>updateTask\<close> is an \<^verbatim>\<open>UpdateTaskDto\<close>, which has no key
  \<^verbatim>\<open>actualMinutes\<close>.
\<close>

definition fresh_task_id :: "storage \<Rightarrow> string \<Rightarrow> bool" where
  "fresh_task_id st n = (n \<notin> t_id ` set (tasks st) \<and> n \<notin> s_taskId ` set (sessions st))"

definition fresh_session_id :: "storage \<Rightarrow> string \<Rightarrow> bool" where
  "fresh_session_id st n = (n \<notin> s_id ` set (sessions st))"

fun well_formed :: "vm_state \<Rightarrow> operation \<Rightarrow> bool" where
  "well_formed s (CreateTask dto newId now) = fresh_task_id (store s) newId"
| "well_formed s (CreateTasksFromNote noteId taskTitles) =
     (distinct (map (\<lambda>(title, newId, now). newId) taskTitles) \<and>
      list_all (\<lambda>(title, newId, now). fresh_task_id (store s) newId) taskTitles)"
| "well_formed s (StartTask taskId now1 now2 newId now3) = fresh_session_id (store s) newId"
| "well_formed s (UpdateTask i dto now1 now2) = (u_actualMinutes dto = None)"
| "well_formed s _ = True"

text \<open>The sessions that are open: no \<^verbatim>\<open>endedAt\<close>.\<close>

definition openSessions :: "storage \<Rightarrow> TaskSession list" where
  "openSessions st = filter (\<lambda>session. s_endedAt session = None) (sessions st)"

text \<open>The minutes of the closed sessions of a task.\<close>

definition closedMinutes :: "storage \<Rightarrow> string \<Rightarrow> int" where
  "closedMinutes st taskId =
     sum_list (map s_durationMinutes
       (filter (\<lambda>session. s_taskId session = taskId \<and> s_endedAt session \<noteq> None) (sessions st)))"

text \<open>The caller's discipline the engine itself does not check: a task is started only
  while no session is open.\<close>

fun starts_when_idle :: "vm_state \<Rightarrow> operation \<Rightarrow> bool" where
  "starts_when_idle s (StartTask taskId now1 now2 newId now3) = (openSessions (store s) = [])"
| "starts_when_idle s _ = True"

text \<open>A configuration that keeps \<^verbatim>\<open>workDuration\<close> non-negative.\<close>

fun keeps_workDuration_nonneg :: "vm_state \<Rightarrow> operation \<Rightarrow> bool" where
  "keeps_workDuration_nonneg s (UpdatePomodoroSettings settings) =
     (case p_workDuration settings of None \<Rightarrow> True | Some w \<Rightarrow> 0 \<le> w)"
| "keeps_workDuration_nonneg s _ = True"

text \<open>
  The facts about a state that the well-formed runs maintain: ids are unique, an open
  session has no minutes yet, every task's minutes are those of its closed sessions, and
  the current session is a stored, open session.
\<close>

definition storage_consistent :: "storage \<Rightarrow> bool" where
  "storage_consistent st =
     (distinct (map t_id (tasks st)) \<and>
      distinct (map s_id (sessions st)) \<and>
      (\<forall>session \<in> set (sessions st).
         s_endedAt session = None \<longrightarrow> s_durationMinutes session = 0) \<and>
      (\<forall>task \<in> set (tasks st). t_actualMinutes task = closedMinutes st (t_id task)))"

definition current_is_open :: "storage \<Rightarrow> TaskSession option \<Rightarrow> bool" where
  "current_is_open st c =
     (case c of None \<Rightarrow> True | Some cur \<Rightarrow> cur \<in> set (sessions st) \<and> s_endedAt cur = None)"

definition consistent :: "vm_state \<Rightarrow> bool" where
  "consistent s =
     (storage_consistent (store s) \<and> current_is_open (store s) (currentSessionAtom s))"

text \<open>The completion time stored for a task id, if the task is stored and has one.\<close>

definition stored_completedAt :: "storage \<Rightarrow> string \<Rightarrow> date option" where
  "stored_completedAt st i = Option.bind (getTaskById st i) t_completedAt"

text \<open>The configured work duration and the remaining time are both non-negative.\<close>

definition timer_nonneg :: "vm_state \<Rightarrow> bool" where
  "timer_nonneg s = (0 \<le> workDuration (pomodoroSettings s) \<and> 0 \<le> timeRemaining (timerState s))"

section \<open>Example runs\<close>

text \<open>
  \<^verbatim>\<open>onCreateTask={(title) => taskVM.createTask({ title })}\<close>: the dto the task panel
  creates a task with.
\<close>

definition title_only :: "string \<Rightarrow> CreateTaskDto" where
  "title_only title =
     \<lparr> c_noteId = None, c_title = title, c_description = None, c_priority = None,
       c_dueDate = None, c_estimatedMinutes = None, c_tags = None \<rparr>"

definition workDuration_only :: "int \<Rightarrow> PomodoroSettingsPartial" where
  "workDuration_only w =
     \<lparr> p_workDuration = Some w, p_shortBreakDuration = None, p_longBreakDuration = None,
       p_sessionsUntilLongBreak = None, p_autoStartBreaks = None, p_autoStartPomodoros = None \<rparr>"

definition task1 :: Task where
  "task1 =
     \<lparr> t_id = ''t1'', t_noteId = None, t_title = ''Write spec'', t_description = None,
       t_status = Todo, t_priority = Medium, t_dueDate = None, t_estimatedMinutes = None,
       t_actualMinutes = 0, t_tags = [], t_createdAt = 0, t_updatedAt = 0,
       t_completedAt = None \<rparr>"

definition session1 :: TaskSession where
  "session1 =
     \<lparr> s_id = ''s1'', s_taskId = ''t1'', s_startedAt = 1000, s_endedAt = None,
       s_durationMinutes = 0, s_type = Pomodoro, s_completed = False,
       s_achievement = None, s_pending = None, s_notes = None \<rparr>"

text \<open>One task is created at time 0.\<close>

definition one_task :: "operation list" where
  "one_task = [CreateTask (title_only ''Write spec'') ''t1'' 0]"

text \<open>The task is started one second later.\<close>

definition start_one :: "operation list" where
  "start_one = one_task @ [StartTask ''t1'' 1000 1000 ''s1'' 1000]"

text \<open>The session is stopped 25 minutes after its start.\<close>

definition full_pomodoro :: "operation list" where
  "full_pomodoro =
     start_one @ [StopTask (Some ''Wrote spec'') (Some ''Review'') 1501000 1501000 1501000]"

text \<open>Two tasks are created and started one after the other; nothing is stopped.\<close>

definition two_starts :: "operation list" where
  "two_starts =
     [CreateTask (title_only ''a'') ''t1'' 0,
      CreateTask (title_only ''b'') ''t2'' 1,
      StartTask ''t1'' 2 2 ''s1'' 3,
      StartTask ''t2'' 4 4 ''s2'' 5]"

text \<open>
  The work duration is configured to 0 minutes; a task is created, started at time 1000
  and stopped ten seconds later.
\<close>

definition zero_length_pomodoro :: "operation list" where
  "zero_length_pomodoro =
     [UpdatePomodoroSettings (workDuration_only 0),
      CreateTask (title_only ''Write spec'') ''t1'' 0,
      StartTask ''t1'' 1000 1000 ''s1'' 1000,
      StopTask None None 11000 11000 11000]"

text \<open>The task is deleted while its session is open.\<close>

definition orphaned :: "operation list" where
  "orphaned = start_one @ [DeleteTask ''t1'']"

text \<open>The task is completed: \<^verbatim>\<open>updatedAt\<close> is read at 6, \<^verbatim>\<open>completedAt\<close> at 7.\<close>

definition done_once :: "operation list" where
  "done_once = one_task @ [CompleteTask ''t1'' 6 7]"

section \<open>Lemmas\<close>

lemma findIndex_None: "findIndex P xs = None \<longleftrightarrow> (\<forall>x \<in> set xs. \<not> P x)"
  by (induction xs) auto

subsection \<open>Lists, merges and the minutes of closed sessions\<close>

lemma findIndex_Some:
  "findIndex P xs = Some k \<Longrightarrow> k < length xs \<and> P (xs ! k) \<and> find P xs = Some (xs ! k)"
  by (induction xs arbitrary: k) (auto split: if_splits)

lemma find_Some_findIndex:
  "find P xs = Some x \<Longrightarrow> \<exists>k. findIndex P xs = Some k \<and> k < length xs \<and> xs ! k = x"
  by (induction xs) (auto split: if_splits)

lemma find_None_findIndex: "find P xs = None \<longleftrightarrow> findIndex P xs = None"
  by (induction xs) auto

lemma findIndex_distinct:
  "distinct (map f xs) \<Longrightarrow> x \<in> set xs \<Longrightarrow>
   \<exists>k. findIndex (\<lambda>y. f y = f x) xs = Some k \<and> k < length xs \<and> xs ! k = x"
proof (induction xs)
  case Nil
  then show ?case by simp
next
  case (Cons a xs)
  show ?case
  proof (cases "a = x")
    case True
    then show ?thesis by simp
  next
    case False
    with Cons.prems have x: "x \<in> set xs" and ne: "f a \<noteq> f x" by auto
    from Cons.IH x Cons.prems(1) obtain k where
      "findIndex (\<lambda>y. f y = f x) xs = Some k" "k < length xs" "xs ! k = x" by auto
    with ne show ?thesis by simp
  qed
qed

lemma sum_list_map_update:
  fixes f :: "'a \<Rightarrow> int"
  shows "k < length xs \<Longrightarrow> sum_list (map f (xs[k := y])) = sum_list (map f xs) - f (xs ! k) + f y"
  by (induction xs arbitrary: k) (auto split: nat.splits)

lemma map_update_same:
  "f y = f (xs ! k) \<Longrightarrow> map f (xs[k := y]) = map f xs"
  by (induction xs arbitrary: k) (auto split: nat.splits)

lemma mergeTask_id [simp]: "t_id (mergeTask task dto now1 now2) = t_id task"
  by (simp add: mergeTask_def)

lemma mergeTask_actualMinutes:
  "t_actualMinutes (mergeTask task dto now1 now2) = spread (t_actualMinutes task) (u_actualMinutes dto)"
  by (simp add: mergeTask_def)

lemma mergeTask_completedAt:
  "t_completedAt (mergeTask task dto now1 now2) =
     (if u_status dto = Some Done \<and> t_completedAt task = None then Some now2 else t_completedAt task)"
  by (simp add: mergeTask_def)

lemma mergeTask_empty: "mergeTask task emptyUpdateTaskDto now1 now2 = task\<lparr> t_updatedAt := now1 \<rparr>"
  by (simp add: mergeTask_def emptyUpdateTaskDto_def spread_def)

lemma mergeSession_fixed [simp]:
  "s_id (mergeSession session dto) = s_id session"
  "s_taskId (mergeSession session dto) = s_taskId session"
  "s_startedAt (mergeSession session dto) = s_startedAt session"
  by (simp_all add: mergeSession_def)

lemma updateTask_found:
  "findIndex (\<lambda>task. t_id task = i) (tasks st) = Some k \<Longrightarrow>
   updateTask st i dto now1 now2 =
     (st\<lparr> tasks := (tasks st)[k := mergeTask (tasks st ! k) dto now1 now2] \<rparr>,
      Inr (mergeTask (tasks st ! k) dto now1 now2))"
  by (simp add: updateTask_def Let_def)

lemma updateTask_not_found:
  "findIndex (\<lambda>task. t_id task = i) (tasks st) = None \<Longrightarrow>
   updateTask st i dto now1 now2 = (st, Inl (Error ''Task not found''))"
  by (simp add: updateTask_def)

lemma updateTask_sessions [simp]: "sessions (fst (updateTask st i dto now1 now2)) = sessions st"
  by (simp add: updateTask_def Let_def split: option.splits)

lemma createTask_eq:
  "createTask st dto n now = (st\<lparr> tasks := tasks st @ [snd (createTask st dto n now)] \<rparr>, snd (createTask st dto n now))"
  by (simp add: createTask_def Let_def)

lemma createTask_new [simp]:
  "t_id (snd (createTask st dto n now)) = n"
  "t_actualMinutes (snd (createTask st dto n now)) = 0"
  "t_completedAt (snd (createTask st dto n now)) = None"
  "t_status (snd (createTask st dto n now)) = Todo"
  by (simp_all add: createTask_def Let_def)

lemma createTask_store [simp]:
  "tasks (fst (createTask st dto n now)) = tasks st @ [snd (createTask st dto n now)]"
  "sessions (fst (createTask st dto n now)) = sessions st"
  by (simp_all add: createTask_def Let_def)

lemma closedMinutes_sessions:
  "sessions st' = sessions st \<Longrightarrow> closedMinutes st' i = closedMinutes st i"
  by (simp add: closedMinutes_def)

lemma closedMinutes_alt:
  "closedMinutes st i =
     sum_list (map (\<lambda>x. if s_taskId x = i \<and> s_endedAt x \<noteq> None then s_durationMinutes x else 0) (sessions st))"
  unfolding closedMinutes_def by (rule sum_list_map_filter')

lemma closedMinutes_unreferenced:
  "i \<notin> s_taskId ` set (sessions st) \<Longrightarrow> closedMinutes st i = 0"
proof -
  assume "i \<notin> s_taskId ` set (sessions st)"
  then have "filter (\<lambda>session. s_taskId session = i \<and> s_endedAt session \<noteq> None) (sessions st) = []"
    by (auto simp: filter_empty_conv)
  then show ?thesis by (simp add: closedMinutes_def)
qed

lemma closedMinutes_append_open:
  "sessions st' = sessions st @ [x] \<Longrightarrow> s_endedAt x = None \<Longrightarrow> closedMinutes st' i = closedMinutes st i"
  by (simp add: closedMinutes_def)

lemma closedMinutes_close:
  assumes "k < length (sessions st)" "sessions st' = (sessions st)[k := y]"
      and "s_endedAt (sessions st ! k) = None" "s_endedAt y \<noteq> None"
  shows "closedMinutes st' i = closedMinutes st i + (if s_taskId y = i then s_durationMinutes y else 0)"
  using assms by (simp add: closedMinutes_alt sum_list_map_update)

subsection \<open>Task operations keep the storage consistent\<close>

lemma storage_consistent_createTask:
  assumes "storage_consistent st" "fresh_task_id st n"
  shows "storage_consistent (fst (createTask st dto n now))"
proof -
  let ?st' = "fst (createTask st dto n now)"
  have cm: "closedMinutes ?st' i = closedMinutes st i" for i
    by (rule closedMinutes_sessions) simp
  have "closedMinutes st n = 0"
    using assms(2) by (simp add: fresh_task_id_def closedMinutes_unreferenced)
  with assms show ?thesis
    by (auto simp: storage_consistent_def fresh_task_id_def cm)
qed

lemma storage_consistent_updateTask:
  assumes "storage_consistent st" "u_actualMinutes dto = None"
  shows "storage_consistent (fst (updateTask st i dto now1 now2))"
proof (cases "findIndex (\<lambda>task. t_id task = i) (tasks st)")
  case None
  with assms show ?thesis by (simp add: updateTask_not_found)
next
  case (Some k)
  let ?m = "mergeTask (tasks st ! k) dto now1 now2"
  let ?st' = "st\<lparr> tasks := (tasks st)[k := ?m] \<rparr>"
  from Some have k: "k < length (tasks st)" by (simp add: findIndex_Some)
  have ids: "map t_id ((tasks st)[k := ?m]) = map t_id (tasks st)"
    by (rule map_update_same) simp
  have cm: "closedMinutes ?st' j = closedMinutes st j" for j
    by (rule closedMinutes_sessions) simp
  have m: "t_actualMinutes ?m = closedMinutes st (t_id ?m)"
    using assms k by (simp add: mergeTask_actualMinutes spread_def storage_consistent_def)
  have "t_actualMinutes task = closedMinutes st (t_id task)"
    if "task \<in> set ((tasks st)[k := ?m])" for task
  proof -
    from that have "task = ?m \<or> task \<in> set (tasks st)"
      using set_update_subset_insert[of "tasks st" k ?m] by auto
    with m assms(1) show ?thesis by (auto simp: storage_consistent_def)
  qed
  with assms(1) ids have "storage_consistent ?st'"
    by (simp add: storage_consistent_def cm)
  with Some show ?thesis by (simp add: updateTask_found)
qed

lemma deleteTask_store [simp]:
  "tasks (fst (deleteTask st i)) = filter (\<lambda>task. t_id task \<noteq> i) (tasks st)"
  "sessions (fst (deleteTask st i)) = sessions st"
  by (simp_all add: deleteTask_def)

lemma storage_consistent_deleteTask:
  assumes "storage_consistent st"
  shows "storage_consistent (fst (deleteTask st i))"
proof -
  have cm: "closedMinutes (fst (deleteTask st i)) j = closedMinutes st j" for j
    by (rule closedMinutes_sessions) simp
  from assms show ?thesis
    by (auto simp: storage_consistent_def cm distinct_map_filter)
qed

lemma createSession_store [simp]:
  "tasks (fst (createSession st dto n now)) = tasks st"
  "sessions (fst (createSession st dto n now)) = sessions st @ [snd (createSession st dto n now)]"
  by (simp_all add: createSession_def Let_def)

lemma createSession_new [simp]:
  "s_id (snd (createSession st dto n now)) = n"
  "s_taskId (snd (createSession st dto n now)) = cs_taskId dto"
  "s_startedAt (snd (createSession st dto n now)) = now"
  "s_endedAt (snd (createSession st dto n now)) = None"
  "s_durationMinutes (snd (createSession st dto n now)) = 0"
  "s_completed (snd (createSession st dto n now)) = False"
  by (simp_all add: createSession_def Let_def)

lemma storage_consistent_createSession:
  assumes "storage_consistent st" "fresh_session_id st n"
  shows "storage_consistent (fst (createSession st dto n now))"
proof -
  have cm: "closedMinutes (fst (createSession st dto n now)) j = closedMinutes st j" for j
    by (rule closedMinutes_append_open[where x = "snd (createSession st dto n now)"]) simp_all
  from assms show ?thesis
    by (auto simp: storage_consistent_def fresh_session_id_def cm)
qed

subsection \<open>What updateSession does\<close>

lemma updateSession_not_found:
  "findIndex (\<lambda>session. s_id session = i) (sessions st) = None \<Longrightarrow>
   updateSession st i dto now1 now2 = (st, Inl (Error ''Session not found''))"
  by (simp add: updateSession_def)

lemma updateSession_no_credit:
  assumes "findIndex (\<lambda>session. s_id session = i) (sessions st) = Some k"
      and "us_durationMinutes dto = None \<or> us_durationMinutes dto = Some 0 \<or>
           findIndex (\<lambda>task. t_id task = s_taskId (sessions st ! k)) (tasks st) = None"
  shows "updateSession st i dto now1 now2 =
           (st\<lparr> sessions := (sessions st)[k := mergeSession (sessions st ! k) dto] \<rparr>,
            Inr (mergeSession (sessions st ! k) dto))"
proof -
  have "find (\<lambda>task. t_id task = s_taskId (sessions st ! k)) (tasks st) = None"
    if "findIndex (\<lambda>task. t_id task = s_taskId (sessions st ! k)) (tasks st) = None"
    using that by (simp add: find_None_findIndex)
  with assms show ?thesis
    by (auto simp: updateSession_def Let_def getTaskById_def split: option.splits)
qed

lemma updateSession_credit:
  assumes "findIndex (\<lambda>session. s_id session = i) (sessions st) = Some k"
      and "us_durationMinutes dto = Some d" "d \<noteq> 0"
      and "findIndex (\<lambda>task. t_id task = s_taskId (sessions st ! k)) (tasks st) = Some m"
  shows "updateSession st i dto now1 now2 =
           (st\<lparr> sessions := (sessions st)[k := mergeSession (sessions st ! k) dto],
                tasks := (tasks st)[m := mergeTask (tasks st ! m)
                   (emptyUpdateTaskDto\<lparr> u_actualMinutes := Some (t_actualMinutes (tasks st ! m) + d) \<rparr>)
                   now1 now2] \<rparr>,
            Inr (mergeSession (sessions st ! k) dto))"
proof -
  let ?tid = "s_taskId (sessions st ! k)"
  let ?st1 = "st\<lparr> sessions := (sessions st)[k := mergeSession (sessions st ! k) dto] \<rparr>"
  from assms(4) have f: "find (\<lambda>task. t_id task = ?tid) (tasks st) = Some (tasks st ! m)"
    and tid: "t_id (tasks st ! m) = ?tid"
    by (auto dest: findIndex_Some)
  have "findIndex (\<lambda>task. t_id task = t_id (tasks st ! m)) (tasks ?st1) = Some m"
    using assms(4) tid by simp
  then have u: "updateTask ?st1 (t_id (tasks st ! m)) dto' now1 now2 =
      (?st1\<lparr> tasks := (tasks ?st1)[m := mergeTask (tasks ?st1 ! m) dto' now1 now2] \<rparr>,
       Inr (mergeTask (tasks ?st1 ! m) dto' now1 now2))" for dto'
    by (rule updateTask_found)
  show ?thesis
    using assms(1-3) f
    by (simp add: updateSession_def Let_def getTaskById_def u)
qed

subsection \<open>Closing an open session keeps the storage consistent\<close>

lemma in_set_updateE:
  assumes "x \<in> set (xs[m := y])" "m < length xs"
  obtains "x = y" | j where "j < length xs" "j \<noteq> m" "x = xs ! j"
proof -
  from assms(1) obtain j where j: "j < length (xs[m := y])" "xs[m := y] ! j = x"
    by (auto simp: in_set_conv_nth)
  show ?thesis
  proof (cases "j = m")
    case True
    with j assms(2) have "x = y" by simp
    then show ?thesis by (rule that(1))
  next
    case False
    with j have "j < length xs" "x = xs ! j" by simp_all
    with False show ?thesis by (intro that(2)) auto
  qed
qed

lemma mergeSession_closing:
  "us_endedAt dto = Some (Some e) \<Longrightarrow> s_endedAt (mergeSession session dto) = Some e"
  "us_durationMinutes dto = Some d \<Longrightarrow> s_durationMinutes (mergeSession session dto) = d"
  by (simp_all add: mergeSession_def spread_def)

lemma updateSession_sessions:
  assumes "findIndex (\<lambda>session. s_id session = i) (sessions st) = Some k"
  shows "sessions (fst (updateSession st i dto now1 now2)) =
           (sessions st)[k := mergeSession (sessions st ! k) dto]"
    and "snd (updateSession st i dto now1 now2) = Inr (mergeSession (sessions st ! k) dto)"
proof -
  let ?tid = "s_taskId (sessions st ! k)"
  consider (none) "us_durationMinutes dto = None \<or> us_durationMinutes dto = Some 0 \<or>
           findIndex (\<lambda>task. t_id task = ?tid) (tasks st) = None"
    | (credit) d m where "us_durationMinutes dto = Some d" "d \<noteq> 0"
        "findIndex (\<lambda>task. t_id task = ?tid) (tasks st) = Some m"
    by (cases "us_durationMinutes dto"; cases "findIndex (\<lambda>task. t_id task = ?tid) (tasks st)") auto
  then have "sessions (fst (updateSession st i dto now1 now2)) =
           (sessions st)[k := mergeSession (sessions st ! k) dto] \<and>
         snd (updateSession st i dto now1 now2) = Inr (mergeSession (sessions st ! k) dto)"
  proof cases
    case none
    then show ?thesis by (simp add: updateSession_no_credit[OF assms])
  next
    case credit
    then show ?thesis by (simp add: updateSession_credit[OF assms])
  qed
  then show "sessions (fst (updateSession st i dto now1 now2)) =
           (sessions st)[k := mergeSession (sessions st ! k) dto]"
    and "snd (updateSession st i dto now1 now2) = Inr (mergeSession (sessions st ! k) dto)"
    by simp_all
qed

lemma storage_consistent_close:
  assumes sc: "storage_consistent st"
      and k: "findIndex (\<lambda>session. s_id session = i) (sessions st) = Some k"
      and op: "s_endedAt (sessions st ! k) = None"
      and dto: "us_endedAt dto = Some (Some e)" "us_durationMinutes dto = Some d"
  shows "storage_consistent (fst (updateSession st i dto now1 now2))"
proof -
  let ?cur = "sessions st ! k"
  let ?merged = "mergeSession ?cur dto"
  let ?tid = "s_taskId ?cur"
  let ?ss' = "(sessions st)[k := ?merged]"
  from k have klen: "k < length (sessions st)" by (simp add: findIndex_Some)
  have sids: "map s_id ?ss' = map s_id (sessions st)"
    by (rule map_update_same) simp
  have closed: "s_endedAt ?merged \<noteq> None" "s_durationMinutes ?merged = d"
    using dto by (simp_all add: mergeSession_closing)
  have open_zero: "\<forall>x \<in> set ?ss'. s_endedAt x = None \<longrightarrow> s_durationMinutes x = 0"
  proof
    fix x assume "x \<in> set ?ss'"
    then have "x = ?merged \<or> x \<in> set (sessions st)"
      using set_update_subset_insert[of "sessions st" k ?merged] by auto
    with closed sc show "s_endedAt x = None \<longrightarrow> s_durationMinutes x = 0"
      by (auto simp: storage_consistent_def)
  qed
  have cm: "closedMinutes st' j = closedMinutes st j + (if ?tid = j then d else 0)"
    if "sessions st' = ?ss'" for st' j
    using closedMinutes_close[OF klen that op closed(1), of j] closed(2) by simp
  have credit_ok: "\<forall>task \<in> set (tasks st). t_actualMinutes task = closedMinutes st (t_id task)"
    and tdist: "distinct (map t_id (tasks st))" and sdist: "distinct (map s_id (sessions st))"
    using sc by (simp_all add: storage_consistent_def)
  consider (none) "d = 0 \<or> findIndex (\<lambda>task. t_id task = ?tid) (tasks st) = None"
    | (credit) m where "d \<noteq> 0" "findIndex (\<lambda>task. t_id task = ?tid) (tasks st) = Some m"
    by (cases "findIndex (\<lambda>task. t_id task = ?tid) (tasks st)") auto
  then show ?thesis
  proof cases
    case none
    let ?st' = "st\<lparr> sessions := ?ss' \<rparr>"
    have eq: "updateSession st i dto now1 now2 = (?st', Inr ?merged)"
      using none dto by (intro updateSession_no_credit[OF k]) auto
    have "t_actualMinutes task = closedMinutes ?st' (t_id task)" if "task \<in> set (tasks st)" for task
    proof -
      have "d = 0 \<or> t_id task \<noteq> ?tid"
        using none that by (auto simp: findIndex_None)
      then have "closedMinutes ?st' (t_id task) = closedMinutes st (t_id task)"
        by (auto simp: cm)
      with credit_ok that show ?thesis by simp
    qed
    with tdist sdist sids open_zero have "storage_consistent ?st'"
      by (simp add: storage_consistent_def)
    with eq show ?thesis by simp
  next
    case credit
    let ?old = "tasks st ! m"
    let ?new = "mergeTask ?old (emptyUpdateTaskDto\<lparr> u_actualMinutes := Some (t_actualMinutes ?old + d) \<rparr>) now1 now2"
    let ?ts' = "(tasks st)[m := ?new]"
    let ?st' = "st\<lparr> sessions := ?ss', tasks := ?ts' \<rparr>"
    have eq: "updateSession st i dto now1 now2 = (?st', Inr ?merged)"
      using credit dto by (intro updateSession_credit[OF k]) auto
    from credit(2) have mlen: "m < length (tasks st)" and mid: "t_id ?old = ?tid"
      by (auto dest: findIndex_Some)
    have tids: "map t_id ?ts' = map t_id (tasks st)"
      by (rule map_update_same) simp
    have new_id: "t_id ?new = ?tid" using mid by simp
    have new_min: "t_actualMinutes ?new = t_actualMinutes ?old + d"
      by (simp add: mergeTask_actualMinutes spread_def)
    have "t_actualMinutes task = closedMinutes ?st' (t_id task)" if "task \<in> set ?ts'" for task
      using that mlen
    proof (cases rule: in_set_updateE)
      case 1
      have "t_actualMinutes ?old = closedMinutes st ?tid"
        using credit_ok mlen mid by (metis nth_mem)
      with 1 new_id new_min show ?thesis by (simp add: cm)
    next
      case (2 j)
      have "t_id (tasks st ! j) \<noteq> t_id (tasks st ! m)"
        using tdist 2 mlen by (simp add: distinct_conv_nth)
      with 2 mid have "t_id task \<noteq> ?tid" by simp
      then have "closedMinutes ?st' (t_id task) = closedMinutes st (t_id task)"
        by (auto simp: cm)
      moreover have "task \<in> set (tasks st)" using 2 by simp
      ultimately show ?thesis using credit_ok by simp
    qed
    with tdist sdist sids tids open_zero have "storage_consistent ?st'"
      by (simp add: storage_consistent_def)
    with eq show ?thesis by simp
  qed
qed

subsection \<open>What the actions of the view model change\<close>

lemma setError_proj [simp]:
  "store (setError err s) = store s"
  "currentSessionAtom (setError err s) = currentSessionAtom s"
  "timerState (setError err s) = timerState s"
  "pomodoroSettings (setError err s) = pomodoroSettings s"
  by (cases err; simp)+

lemma vm_updateTask_proj [simp]:
  "store (fst (vm_updateTask s i dto now1 now2)) = fst (updateTask (store s) i dto now1 now2)"
  "currentSessionAtom (fst (vm_updateTask s i dto now1 now2)) = currentSessionAtom s"
  "timerState (fst (vm_updateTask s i dto now1 now2)) = timerState s"
  "pomodoroSettings (fst (vm_updateTask s i dto now1 now2)) = pomodoroSettings s"
  "snd (vm_updateTask s i dto now1 now2) = snd (updateTask (store s) i dto now1 now2)"
  by (simp_all add: vm_updateTask_def split: prod.splits sum.splits)

lemma vm_createTask_proj [simp]:
  "store (fst (vm_createTask s dto n now)) = fst (createTask (store s) dto n now)"
  "currentSessionAtom (fst (vm_createTask s dto n now)) = currentSessionAtom s"
  "timerState (fst (vm_createTask s dto n now)) = timerState s"
  "pomodoroSettings (fst (vm_createTask s dto n now)) = pomodoroSettings s"
  by (simp_all add: vm_createTask_def split: prod.splits)

lemma vm_deleteTask_proj [simp]:
  "store (fst (vm_deleteTask s i)) = fst (deleteTask (store s) i)"
  "currentSessionAtom (fst (vm_deleteTask s i)) = currentSessionAtom s"
  "timerState (fst (vm_deleteTask s i)) = timerState s"
  "pomodoroSettings (fst (vm_deleteTask s i)) = pomodoroSettings s"
  by (simp_all add: vm_deleteTask_def deleteTask_def)

lemma vm_createTasksFromNote_proj [simp]:
  "store (fst (vm_createTasksFromNote s noteId tts)) = fst (createTasksFromNote (store s) noteId tts)"
  "currentSessionAtom (fst (vm_createTasksFromNote s noteId tts)) = currentSessionAtom s"
  "timerState (fst (vm_createTasksFromNote s noteId tts)) = timerState s"
  "pomodoroSettings (fst (vm_createTasksFromNote s noteId tts)) = pomodoroSettings s"
  by (simp_all add: vm_createTasksFromNote_def split: prod.splits)

lemma completeTask_proj [simp]:
  "store (fst (completeTask s i now1 now2)) =
     fst (updateTask (store s) i (emptyUpdateTaskDto\<lparr> u_status := Some Done \<rparr>) now1 now2)"
  "currentSessionAtom (fst (completeTask s i now1 now2)) = currentSessionAtom s"
  "timerState (fst (completeTask s i now1 now2)) = timerState s"
  "pomodoroSettings (fst (completeTask s i now1 now2)) = pomodoroSettings s"
proof -
  obtain s1 r where v: "vm_updateTask s i (emptyUpdateTaskDto\<lparr> u_status := Some Done \<rparr>) now1 now2 = (s1, r)"
    by (cases "vm_updateTask s i (emptyUpdateTaskDto\<lparr> u_status := Some Done \<rparr>) now1 now2")
  have s1: "fst (completeTask s i now1 now2) = s1"
    by (simp add: completeTask_def v split: sum.splits)
  have "s1 = fst (vm_updateTask s i (emptyUpdateTaskDto\<lparr> u_status := Some Done \<rparr>) now1 now2)"
    by (simp add: v)
  with s1 show
    "store (fst (completeTask s i now1 now2)) =
       fst (updateTask (store s) i (emptyUpdateTaskDto\<lparr> u_status := Some Done \<rparr>) now1 now2)"
    "currentSessionAtom (fst (completeTask s i now1 now2)) = currentSessionAtom s"
    "timerState (fst (completeTask s i now1 now2)) = timerState s"
    "pomodoroSettings (fst (completeTask s i now1 now2)) = pomodoroSettings s"
    by simp_all
qed

lemma loadTasks_proj [simp]:
  "store (loadTasks s) = store s"
  "timerState (loadTasks s) = timerState s"
  "pomodoroSettings (loadTasks s) = pomodoroSettings s"
  "currentSessionAtom (loadTasks s) =
     (case getActiveSession (store s) of None \<Rightarrow> currentSessionAtom s | Some a \<Rightarrow> Some a)"
  by (simp_all add: loadTasks_def Let_def split: option.splits)

lemma getActiveSession_open:
  "getActiveSession st = Some a \<Longrightarrow> a \<in> set (sessions st) \<and> s_endedAt a = None"
  unfolding getActiveSession_def by (auto simp: find_Some_iff)

lemma current_is_open_loadTasks:
  "current_is_open (store s) (currentSessionAtom s) \<Longrightarrow>
   current_is_open (store s) (currentSessionAtom (loadTasks s))"
  by (auto simp: current_is_open_def dest: getActiveSession_open split: option.splits)

lemma current_is_open_sessions:
  "sessions st' = sessions st \<Longrightarrow> current_is_open st' c = current_is_open st c"
  by (simp add: current_is_open_def split: option.splits)

lemma current_is_open_append:
  "sessions st' = sessions st @ [x] \<Longrightarrow> current_is_open st c \<Longrightarrow> current_is_open st' c"
  by (auto simp: current_is_open_def split: option.splits)

subsection \<open>startTask and stopTask\<close>

lemma startTask_not_found:
  assumes "findIndex (\<lambda>task. t_id task = taskId) (tasks (store s)) = None"
  shows "startTask s taskId now1 now2 newId now3 =
           (s\<lparr> errorAtom := Some ''Task not found'' \<rparr>, Inl (Error ''Task not found''))"
  using assms by (simp add: startTask_def vm_updateTask_def updateTask_not_found)

lemma startTask_found:
  assumes "findIndex (\<lambda>task. t_id task = taskId) (tasks (store s)) = Some k"
  shows "startTask s taskId now1 now2 newId now3 =
     (let updated = mergeTask (tasks (store s) ! k) (emptyUpdateTaskDto\<lparr> u_status := Some InProgress \<rparr>) now1 now2;
          st1 = (store s)\<lparr> tasks := (tasks (store s))[k := updated] \<rparr>;
          session = snd (createSession st1 \<lparr> cs_taskId = taskId, cs_type = None \<rparr> newId now3)
      in (s\<lparr> store := st1\<lparr> sessions := sessions (store s) @ [session] \<rparr>,
             tasksAtom := map (\<lambda>task. if t_id task = taskId then updated else task) (tasksAtom s),
             currentSessionAtom := Some session,
             activeTaskIdAtom := Some taskId,
             timerState :=
               \<lparr> isRunning = True, isPaused = False,
                 timeRemaining = workDuration (pomodoroSettings s) * 60,
                 totalTime = workDuration (pomodoroSettings s) * 60, sessionType = Pomodoro,
                 completedPomodoros = completedPomodoros (timerState s) \<rparr> \<rparr>,
          Inr ()))"
  using assms
  by (simp add: startTask_def vm_updateTask_def updateTask_found Let_def createSession_def)

lemma consistent_startTask:
  assumes "consistent s" "fresh_session_id (store s) newId"
  shows "consistent (fst (startTask s taskId now1 now2 newId now3))"
proof (cases "findIndex (\<lambda>task. t_id task = taskId) (tasks (store s))")
  case None
  with assms(1) show ?thesis
    by (simp add: startTask_not_found consistent_def)
next
  case (Some k)
  let ?dto = "emptyUpdateTaskDto\<lparr> u_status := Some InProgress \<rparr>"
  let ?st1 = "fst (updateTask (store s) taskId ?dto now1 now2)"
  let ?cs = "createSession ?st1 \<lparr> cs_taskId = taskId, cs_type = None \<rparr> newId now3"
  have st1: "?st1 = (store s)\<lparr> tasks := (tasks (store s))[k := mergeTask (tasks (store s) ! k) ?dto now1 now2] \<rparr>"
    using Some by (simp add: updateTask_found)
  have sc1: "storage_consistent ?st1"
    using assms(1) by (intro storage_consistent_updateTask) (simp_all add: consistent_def emptyUpdateTaskDto_def)
  have fr: "fresh_session_id ?st1 newId"
    using assms(2) by (simp add: fresh_session_id_def)
  have sc2: "storage_consistent (fst ?cs)"
    using sc1 fr by (rule storage_consistent_createSession)
  have store': "store (fst (startTask s taskId now1 now2 newId now3)) = fst ?cs"
    and cur': "currentSessionAtom (fst (startTask s taskId now1 now2 newId now3)) = Some (snd ?cs)"
    using Some by (simp_all add: startTask_found Let_def st1 createSession_def)
  have "current_is_open (fst ?cs) (Some (snd ?cs))"
    by (simp add: current_is_open_def)
  with sc2 store' cur' show ?thesis by (simp add: consistent_def)
qed

lemma stopTask_idle:
  "currentSessionAtom s = None \<Longrightarrow> stopTask s achievement pending now now1 now2 = (s, Inr ())"
  by (simp add: stopTask_def)

lemma stopTask_proj:
  assumes "currentSessionAtom s = Some cur"
      and "findIndex (\<lambda>session. s_id session = s_id cur) (sessions (store s)) = Some k"
  shows "store (fst (stopTask s achievement pending now now1 now2)) =
           fst (updateSession (store s) (s_id cur) (closing cur (timerState s) achievement pending now) now1 now2)"
    and "currentSessionAtom (fst (stopTask s achievement pending now now1 now2)) = None"
    and "timerState (fst (stopTask s achievement pending now now1 now2)) =
           (timerState s)\<lparr> isRunning := False, isPaused := False,
                            timeRemaining := workDuration (pomodoroSettings s) * 60 \<rparr>"
    and "snd (stopTask s achievement pending now now1 now2) = Inr ()"
proof -
  let ?u = "updateSession (store s) (s_id cur) (closing cur (timerState s) achievement pending now) now1 now2"
  obtain st1 where u: "?u = (st1, Inr (mergeSession (sessions (store s) ! k) (closing cur (timerState s) achievement pending now)))"
    using updateSession_sessions(2)[OF assms(2), of "closing cur (timerState s) achievement pending now" now1 now2]
    by (cases ?u) auto
  have "store (fst (stopTask s achievement pending now now1 now2)) = fst ?u \<and>
        currentSessionAtom (fst (stopTask s achievement pending now now1 now2)) = None \<and>
        timerState (fst (stopTask s achievement pending now now1 now2)) =
           (timerState s)\<lparr> isRunning := False, isPaused := False,
                            timeRemaining := workDuration (pomodoroSettings s) * 60 \<rparr> \<and>
        snd (stopTask s achievement pending now now1 now2) = Inr ()"
    using assms(1) u
    by (simp add: stopTask_def Let_def split: option.splits)
  then show "store (fst (stopTask s achievement pending now now1 now2)) = fst ?u"
    and "currentSessionAtom (fst (stopTask s achievement pending now now1 now2)) = None"
    and "timerState (fst (stopTask s achievement pending now now1 now2)) =
           (timerState s)\<lparr> isRunning := False, isPaused := False,
                            timeRemaining := workDuration (pomodoroSettings s) * 60 \<rparr>"
    and "snd (stopTask s achievement pending now now1 now2) = Inr ()"
    by simp_all
qed

subsection \<open>Every well-formed run is consistent\<close>

lemma closing_fields:
  "us_endedAt (closing cur timer achievement pending now) = Some (Some now)"
  "us_durationMinutes (closing cur timer achievement pending now) = Some ((now - s_startedAt cur) div 60000)"
  "us_completed (closing cur timer achievement pending now) = Some (timeRemaining timer \<le> 0)"
  "us_achievement (closing cur timer achievement pending now) = Some achievement"
  "us_pending (closing cur timer achievement pending now) = Some pending"
  "us_notes (closing cur timer achievement pending now) = None"
  by (simp_all add: closing_def Let_def div_mult2_eq[symmetric])

lemma current_findIndex:
  assumes "consistent s" "currentSessionAtom s = Some cur"
  shows "\<exists>k. findIndex (\<lambda>session. s_id session = s_id cur) (sessions (store s)) = Some k \<and>
             k < length (sessions (store s)) \<and> sessions (store s) ! k = cur \<and> s_endedAt cur = None"
proof -
  from assms have "cur \<in> set (sessions (store s))" "s_endedAt cur = None"
    "distinct (map s_id (sessions (store s)))"
    by (simp_all add: consistent_def current_is_open_def storage_consistent_def)
  then show ?thesis
    using findIndex_distinct[of s_id "sessions (store s)" cur] by auto
qed

lemma consistent_stopTask:
  assumes "consistent s"
  shows "consistent (fst (stopTask s achievement pending now now1 now2))"
proof (cases "currentSessionAtom s")
  case None
  with assms show ?thesis by (simp add: stopTask_idle)
next
  case (Some cur)
  from current_findIndex[OF assms Some] obtain k where
    k: "findIndex (\<lambda>session. s_id session = s_id cur) (sessions (store s)) = Some k"
    and cur: "sessions (store s) ! k = cur" "s_endedAt cur = None"
    by blast
  have "storage_consistent
          (fst (updateSession (store s) (s_id cur) (closing cur (timerState s) achievement pending now) now1 now2))"
    using assms k cur
    by (intro storage_consistent_close[where k = k and e = now]) (simp_all add: consistent_def closing_fields)
  then show ?thesis
    by (simp add: consistent_def stopTask_proj[OF Some k] current_is_open_def)
qed

lemma fresh_task_id_createTask:
  "fresh_task_id (fst (createTask st dto n now)) m \<longleftrightarrow> fresh_task_id st m \<and> m \<noteq> n"
  by (auto simp: fresh_task_id_def)

lemma createTasksFromNote_Cons_fst:
  "fst (createTasksFromNote st noteId ((title, newId, now) # rest)) =
     fst (createTasksFromNote
            (fst (createTask st
               \<lparr> c_noteId = Some noteId, c_title = trim title, c_description = None,
                 c_priority = Some Medium, c_dueDate = None, c_estimatedMinutes = None,
                 c_tags = None \<rparr> newId now)) noteId rest)"
  by (simp add: Let_def split: prod.splits)

lemma createTasksFromNote_sessions [simp]:
  "sessions (fst (createTasksFromNote st noteId tts)) = sessions st"
proof (induction tts arbitrary: st)
  case Nil
  then show ?case by simp
next
  case (Cons a tts)
  obtain title newId now where a: "a = (title, newId, now)" by (cases a) auto
  show ?case unfolding a createTasksFromNote_Cons_fst by (simp add: Cons.IH)
qed

lemma storage_consistent_createTasksFromNote:
  assumes "storage_consistent st"
      and "distinct (map (\<lambda>(title, newId, now). newId) tts)"
      and "list_all (\<lambda>(title, newId, now). fresh_task_id st newId) tts"
  shows "storage_consistent (fst (createTasksFromNote st noteId tts))"
  using assms
proof (induction tts arbitrary: st)
  case Nil
  then show ?case by simp
next
  case (Cons a tts)
  obtain title newId now where a: "a = (title, newId, now)" by (cases a) auto
  let ?dto = "\<lparr> c_noteId = Some noteId, c_title = trim title, c_description = None,
                c_priority = Some Medium, c_dueDate = None, c_estimatedMinutes = None,
                c_tags = None \<rparr>"
  let ?st1 = "fst (createTask st ?dto newId now)"
  have sc: "storage_consistent ?st1"
    using Cons.prems a by (intro storage_consistent_createTask) simp_all
  have d: "distinct (map (\<lambda>(title, newId, now). newId) tts)"
    using Cons.prems by simp
  have f: "list_all (\<lambda>(title, newId, now). fresh_task_id ?st1 newId) tts"
    unfolding list_all_iff
  proof
    fix x assume x: "x \<in> set tts"
    obtain t n w where xe: "x = (t, n, w)" by (cases x) auto
    from x xe Cons.prems(2) a have "n \<noteq> newId" by force
    moreover from x xe Cons.prems(3) have "fresh_task_id st n" by (auto simp: list_all_iff)
    ultimately show "case x of (title, newId, now) \<Rightarrow> fresh_task_id ?st1 newId"
      by (simp add: xe fresh_task_id_createTask)
  qed
  show ?case
    unfolding a createTasksFromNote_Cons_fst by (rule Cons.IH[OF sc d f])
qed

lemma reload_proj [simp]:
  "store (reload s) = store s"
  "pomodoroSettings (reload s) = pomodoroSettings s"
  "timerState (reload s) = pomodoroTimerAtom"
  "currentSessionAtom (reload s) = getActiveSession (store s)"
  by (simp_all add: reload_def initial_state_def split: option.splits)

lemma current_is_open_task_ops [simp]:
  "current_is_open (fst (createTask st cdto n now)) c = current_is_open st c"
  "current_is_open (fst (updateTask st i dto now1 now2)) c = current_is_open st c"
  "current_is_open (fst (deleteTask st i)) c = current_is_open st c"
  "current_is_open (fst (createTasksFromNote st noteId tts)) c = current_is_open st c"
  by (rule current_is_open_sessions; simp)+

lemma status_only_actualMinutes [simp]:
  "u_actualMinutes (emptyUpdateTaskDto\<lparr> u_status := x \<rparr>) = None"
  by (simp add: emptyUpdateTaskDto_def)

lemma consistent_step:
  assumes "consistent s" "well_formed s x"
  shows "consistent (step s x)"
proof (cases x)
  case LoadTasks
  with assms current_is_open_loadTasks[of s] show ?thesis
    by (simp add: consistent_def)
next
  case (CreateTask dto newId now)
  with assms show ?thesis
    by (simp add: consistent_def storage_consistent_createTask)
next
  case (UpdateTask i dto now1 now2)
  with assms show ?thesis
    by (simp add: consistent_def storage_consistent_updateTask)
next
  case (DeleteTask i)
  with assms show ?thesis
    by (simp add: consistent_def storage_consistent_deleteTask)
next
  case (CreateTasksFromNote noteId tts)
  with assms show ?thesis
    by (simp add: consistent_def storage_consistent_createTasksFromNote)
next
  case (StartTask taskId now1 now2 newId now3)
  with assms show ?thesis by (simp add: consistent_startTask)
next
  case TogglePause
  with assms show ?thesis by (simp add: consistent_def togglePause_def)
next
  case (StopTask achievement pending now now1 now2)
  with assms show ?thesis by (simp add: consistent_stopTask)
next
  case (CompleteTask taskId now1 now2)
  with assms show ?thesis
    by (simp add: consistent_def storage_consistent_updateTask)
next
  case (LoadTaskSessions taskId)
  with assms show ?thesis by (simp add: consistent_def loadTaskSessions_def)
next
  case (UpdatePomodoroSettings settings)
  with assms show ?thesis by (simp add: consistent_def updatePomodoroSettings_def)
next
  case (SetActiveTaskId a)
  with assms show ?thesis by (simp add: consistent_def)
next
  case Tick
  with assms show ?thesis by (simp add: consistent_def tick_def)
next
  case Reload
  with assms show ?thesis
    by (auto simp: consistent_def current_is_open_def dest: getActiveSession_open split: option.splits)
qed

lemma consistent_initial: "consistent initial_state"
  by (simp add: consistent_def initial_state_def empty_storage_def storage_consistent_def
      current_is_open_def)

lemma consistent_run:
  "consistent s \<Longrightarrow> run well_formed s xs = Some s' \<Longrightarrow> consistent s'"
proof (induction xs arbitrary: s)
  case Nil
  then show ?case by simp
next
  case (Cons x xs)
  from Cons.prems(2) have ok: "well_formed s x" and r: "run well_formed (step s x) xs = Some s'"
    by (auto split: if_splits)
  from Cons.prems(1) ok have "consistent (step s x)" by (rule consistent_step)
  then show ?case using r by (rule Cons.IH)
qed

subsection \<open>Open sessions\<close>

lemma filter_update_le:
  "\<not> P y \<Longrightarrow> length (filter P (xs[k := y])) \<le> length (filter P xs)"
  by (induction xs arbitrary: k) (auto split: nat.splits simp: le_SucI)

lemma updateSession_sessions_cases:
  "sessions (fst (updateSession st i dto now1 now2)) =
     (case findIndex (\<lambda>session. s_id session = i) (sessions st) of
        None \<Rightarrow> sessions st
      | Some k \<Rightarrow> (sessions st)[k := mergeSession (sessions st ! k) dto])"
  by (simp add: updateSession_not_found updateSession_sessions split: option.splits)

lemma stopTask_store:
  "store (fst (stopTask s achievement pending now now1 now2)) =
     (case currentSessionAtom s of
        None \<Rightarrow> store s
      | Some cur \<Rightarrow>
          fst (updateSession (store s) (s_id cur)
                 (closing cur (timerState s) achievement pending now) now1 now2))"
  by (simp add: stopTask_def Let_def split: option.splits prod.splits sum.splits)

lemma openSessions_sessions:
  "sessions st' = sessions st \<Longrightarrow> openSessions st' = openSessions st"
  by (simp add: openSessions_def)

lemma openSessions_task_ops [simp]:
  "openSessions (fst (createTask st cdto n now)) = openSessions st"
  "openSessions (fst (updateTask st i dto now1 now2)) = openSessions st"
  "openSessions (fst (deleteTask st i)) = openSessions st"
  "openSessions (fst (createTasksFromNote st noteId tts)) = openSessions st"
  by (rule openSessions_sessions; simp)+

lemma openSessions_closing:
  "length (openSessions (fst (updateSession st i (closing cur timer achievement pending now) now1 now2)))
     \<le> length (openSessions st)"
proof (cases "findIndex (\<lambda>session. s_id session = i) (sessions st)")
  case None
  then show ?thesis by (simp add: updateSession_not_found)
next
  case (Some k)
  have "s_endedAt (mergeSession (sessions st ! k) (closing cur timer achievement pending now)) \<noteq> None"
    by (simp add: mergeSession_closing(1)[where e = now] closing_fields)
  then show ?thesis
    unfolding openSessions_def updateSession_sessions(1)[OF Some]
    by (intro filter_update_le) simp
qed

lemma openSessions_stopTask:
  "length (openSessions (store (fst (stopTask s achievement pending now now1 now2))))
     \<le> length (openSessions (store s))"
  by (simp add: stopTask_store openSessions_closing split: option.splits)

lemma openSessions_startTask:
  "length (openSessions (store (fst (startTask s taskId now1 now2 newId now3))))
     \<le> Suc (length (openSessions (store s)))"
proof (cases "findIndex (\<lambda>task. t_id task = taskId) (tasks (store s))")
  case None
  then show ?thesis by (simp add: startTask_not_found)
next
  case (Some k)
  then show ?thesis by (simp add: startTask_found Let_def openSessions_def)
qed

lemma openSessions_step:
  "length (openSessions (store (step s x))) \<le>
     (case x of StartTask taskId now1 now2 newId now3 \<Rightarrow> Suc (length (openSessions (store s)))
      | _ \<Rightarrow> length (openSessions (store s)))"
  by (cases x)
     (simp_all add: openSessions_stopTask openSessions_startTask togglePause_def
        loadTaskSessions_def updatePomodoroSettings_def tick_def)

lemma at_most_one_open_run:
  "length (openSessions (store s)) \<le> 1 \<Longrightarrow> run starts_when_idle s xs = Some s' \<Longrightarrow>
   length (openSessions (store s')) \<le> 1"
proof (induction xs arbitrary: s)
  case Nil
  then show ?case by simp
next
  case (Cons x xs)
  from Cons.prems(2) have ok: "starts_when_idle s x"
    and r: "run starts_when_idle (step s x) xs = Some s'"
    by (auto split: if_splits)
  have "length (openSessions (store (step s x))) \<le> 1"
    using openSessions_step[of s x] ok Cons.prems(1)
    by (cases x) simp_all
  then show ?case using r by (rule Cons.IH)
qed

subsection \<open>The closed session\<close>

lemma mergeSession_closing_eq:
  "mergeSession cur (closing cur timer achievement pending now) =
     cur\<lparr> s_endedAt := Some now,
          s_durationMinutes := (now - s_startedAt cur) div 60000,
          s_completed := (timeRemaining timer \<le> 0),
          s_achievement := achievement,
          s_pending := pending \<rparr>"
  by (simp add: mergeSession_def closing_fields spread_def)

lemma sub_minute: "0 \<le> (d::int) \<Longrightarrow> d < 60000 \<Longrightarrow> d div 60000 = 0"
  by simp

subsection \<open>Looking a task up; the countdown\<close>

lemma getTaskById_findIndex:
  "getTaskById st i = Some task \<Longrightarrow>
   \<exists>k. findIndex (\<lambda>task. t_id task = i) (tasks st) = Some k \<and> k < length (tasks st) \<and> tasks st ! k = task"
  unfolding getTaskById_def by (rule find_Some_findIndex)

lemma findIndex_update_same:
  "P y = P (xs ! k) \<Longrightarrow> k < length xs \<Longrightarrow> findIndex P (xs[k := y]) = findIndex P xs"
  by (induction xs arbitrary: k) (auto split: nat.splits)

lemma getTaskById_nth:
  "findIndex (\<lambda>task. t_id task = i) (tasks st) = Some k \<Longrightarrow> getTaskById st i = Some (tasks st ! k)"
  unfolding getTaskById_def by (simp add: findIndex_Some)

lemma mergeTask_status_only:
  "x \<noteq> Done \<Longrightarrow>
   mergeTask task (emptyUpdateTaskDto\<lparr> u_status := Some x \<rparr>) now1 now2 =
     task\<lparr> t_status := x, t_updatedAt := now1 \<rparr>"
  by (simp add: mergeTask_def emptyUpdateTaskDto_def spread_def)

lemma tick_running:
  "isRunning (timerState s) \<Longrightarrow> \<not> isPaused (timerState s) \<Longrightarrow>
   tick s = s\<lparr> timerState := countdown (timerState s) \<rparr>"
  by (simp add: tick_def)

lemma exec_append: "exec s (xs @ ys) = exec (exec s xs) ys"
  by (induction xs arbitrary: s) simp_all

lemma replicate_Suc_snoc: "replicate (Suc k) x = replicate k x @ [x]"
  by (simp add: replicate_append_same)

lemma ticks_before_zero:
  assumes "isRunning (timerState s)" "\<not> isPaused (timerState s)"
      and "timeRemaining (timerState s) = int n" "k < n"
  shows "exec s (replicate k Tick) =
           s\<lparr> timerState := (timerState s)\<lparr> timeRemaining := int n - int k \<rparr> \<rparr>"
  using assms(4)
proof (induction k)
  case 0
  from assms(3) show ?case by simp
next
  case (Suc k)
  then have IH: "exec s (replicate k Tick) =
      s\<lparr> timerState := (timerState s)\<lparr> timeRemaining := int n - int k \<rparr> \<rparr>" by simp
  have "exec s (replicate (Suc k) Tick) = tick (exec s (replicate k Tick))"
    unfolding replicate_Suc_snoc exec_append by simp
  also have "\<dots> = s\<lparr> timerState := (timerState s)\<lparr> timeRemaining := int n - int (Suc k) \<rparr> \<rparr>"
    using assms(1,2) Suc.prems
    by (simp add: IH tick_def countdown_def Let_def)
  finally show ?case .
qed

subsection \<open>The countdown never goes below zero\<close>

lemma countdown_nonneg: "0 \<le> timeRemaining (countdown ts)"
  by (simp add: countdown_def Let_def)

lemma countdown_clamps: "timeRemaining ts - 1 \<le> 0 \<Longrightarrow> timeRemaining (countdown ts) = 0"
  by (simp add: countdown_def Let_def)

lemma startTask_timer:
  "timerState (fst (startTask s taskId now1 now2 newId now3)) = timerState s \<or>
   timeRemaining (timerState (fst (startTask s taskId now1 now2 newId now3))) =
     workDuration (pomodoroSettings s) * 60"
  by (cases "findIndex (\<lambda>task. t_id task = taskId) (tasks (store s))")
     (simp_all add: startTask_not_found startTask_found Let_def)

lemma startTask_settings [simp]:
  "pomodoroSettings (fst (startTask s taskId now1 now2 newId now3)) = pomodoroSettings s"
  by (cases "findIndex (\<lambda>task. t_id task = taskId) (tasks (store s))")
     (simp_all add: startTask_not_found startTask_found Let_def)

lemma stopTask_timer:
  "timerState (fst (stopTask s achievement pending now now1 now2)) = timerState s \<or>
   timeRemaining (timerState (fst (stopTask s achievement pending now now1 now2))) =
     workDuration (pomodoroSettings s) * 60"
  by (simp add: stopTask_def Let_def split: option.splits prod.splits sum.splits)

lemma stopTask_settings [simp]:
  "pomodoroSettings (fst (stopTask s achievement pending now now1 now2)) = pomodoroSettings s"
  by (simp add: stopTask_def Let_def split: option.splits prod.splits sum.splits)

lemma timer_nonneg_step:
  assumes "timer_nonneg s" "keeps_workDuration_nonneg s x"
  shows "timer_nonneg (step s x)"
proof (cases x)
  case (StartTask taskId now1 now2 newId now3)
  with assms startTask_timer[of s taskId now1 now2 newId now3] show ?thesis
    by (auto simp: timer_nonneg_def)
next
  case (StopTask achievement pending now now1 now2)
  with assms stopTask_timer[of s achievement pending now now1 now2] show ?thesis
    by (auto simp: timer_nonneg_def)
next
  case (UpdatePomodoroSettings settings)
  with assms show ?thesis
    by (auto simp: timer_nonneg_def updatePomodoroSettings_def mergeSettings_def spread_def
        split: option.splits)
next
  case Tick
  with assms show ?thesis
    by (simp add: timer_nonneg_def tick_def countdown_nonneg)
next
  case Reload
  with assms show ?thesis
    by (simp add: timer_nonneg_def pomodoroTimerAtom_def)
qed (use assms in \<open>simp_all add: timer_nonneg_def togglePause_def loadTaskSessions_def\<close>)

lemma timer_nonneg_run:
  "timer_nonneg s \<Longrightarrow> run keeps_workDuration_nonneg s xs = Some s' \<Longrightarrow> timer_nonneg s'"
proof (induction xs arbitrary: s)
  case Nil
  then show ?case by simp
next
  case (Cons x xs)
  from Cons.prems(2) have ok: "keeps_workDuration_nonneg s x"
    and r: "run keeps_workDuration_nonneg (step s x) xs = Some s'"
    by (auto split: if_splits)
  from Cons.prems(1) ok have "timer_nonneg (step s x)" by (rule timer_nonneg_step)
  then show ?case using r by (rule Cons.IH)
qed

subsection \<open>The stored completion time\<close>

lemma getTaskById_findIndex_eq:
  "getTaskById st i = map_option (\<lambda>k. tasks st ! k) (findIndex (\<lambda>task. t_id task = i) (tasks st))"
proof (cases "findIndex (\<lambda>task. t_id task = i) (tasks st)")
  case None
  then show ?thesis by (simp add: getTaskById_def find_None_findIndex)
next
  case (Some k)
  then show ?thesis by (simp add: getTaskById_nth)
qed

lemma getTaskById_tasks:
  "tasks st' = tasks st \<Longrightarrow> getTaskById st' i = getTaskById st i"
  by (simp add: getTaskById_def)

lemma getTaskById_updateTask:
  "getTaskById (fst (updateTask st j dto now1 now2)) i =
     (if i = j then map_option (\<lambda>task. mergeTask task dto now1 now2) (getTaskById st i)
      else getTaskById st i)"
proof (cases "findIndex (\<lambda>task. t_id task = j) (tasks st)")
  case None
  then show ?thesis
    by (auto simp: updateTask_not_found getTaskById_findIndex_eq)
next
  case (Some k)
  let ?m = "mergeTask (tasks st ! k) dto now1 now2"
  from Some have klen: "k < length (tasks st)" and kid: "t_id (tasks st ! k) = j"
    by (auto dest: findIndex_Some)
  have fi: "findIndex (\<lambda>task. t_id task = i) ((tasks st)[k := ?m]) =
            findIndex (\<lambda>task. t_id task = i) (tasks st)"
    using klen by (intro findIndex_update_same) simp_all
  show ?thesis
  proof (cases "i = j")
    case True
    from fi Some have "findIndex (\<lambda>task. t_id task = j) ((tasks st)[k := ?m]) = Some k"
      by (simp add: True)
    with Some klen show ?thesis
      by (simp add: True updateTask_found getTaskById_findIndex_eq)
  next
    case False
    have "((tasks st)[k := ?m]) ! q = tasks st ! q"
      if "findIndex (\<lambda>task. t_id task = i) (tasks st) = Some q" for q
    proof -
      from that have "t_id (tasks st ! q) = i" by (auto dest: findIndex_Some)
      with kid False have "q \<noteq> k" by auto
      then show ?thesis by simp
    qed
    with Some False show ?thesis
      by (cases "findIndex (\<lambda>task. t_id task = i) (tasks st)")
         (simp_all add: updateTask_found getTaskById_findIndex_eq fi)
  qed
qed

lemma find_append_Some: "find P xs = Some x \<Longrightarrow> find P (xs @ ys) = Some x"
  by (induction xs) (auto split: if_splits)

lemma getTaskById_createTask:
  "getTaskById st i = Some task \<Longrightarrow> getTaskById (fst (createTask st dto n now)) i = Some task"
  by (simp add: getTaskById_def find_append_Some)

lemma find_filter_other:
  "i \<noteq> j \<Longrightarrow> find (\<lambda>x. f x = i) (filter (\<lambda>x. f x \<noteq> j) xs) = find (\<lambda>x. f x = i) xs"
  by (induction xs) auto

lemma getTaskById_deleteTask:
  "i \<noteq> j \<Longrightarrow> getTaskById (fst (deleteTask st j)) i = getTaskById st i"
  by (simp add: getTaskById_def find_filter_other)

lemma getTaskById_createTasksFromNote:
  "getTaskById st i = Some task \<Longrightarrow> getTaskById (fst (createTasksFromNote st noteId tts)) i = Some task"
proof (induction tts arbitrary: st)
  case Nil
  then show ?case by simp
next
  case (Cons a tts)
  obtain title newId now where a: "a = (title, newId, now)" by (cases a) auto
  show ?case
    unfolding a createTasksFromNote_Cons_fst
    by (intro Cons.IH getTaskById_createTask Cons.prems)
qed

lemma stored_completedAt_updateTask:
  "stored_completedAt st i = Some c \<Longrightarrow>
   stored_completedAt (fst (updateTask st j dto now1 now2)) i = Some c"
  by (cases "getTaskById st i")
     (auto simp: stored_completedAt_def getTaskById_updateTask mergeTask_completedAt)

lemma stored_completedAt_tasks:
  "tasks st' = tasks st \<Longrightarrow> stored_completedAt st' i = stored_completedAt st i"
  by (simp add: stored_completedAt_def getTaskById_def)

lemma stored_completedAt_updateSession:
  assumes "stored_completedAt st i = Some c"
  shows "stored_completedAt (fst (updateSession st j dto now1 now2)) i = Some c"
proof (cases "findIndex (\<lambda>session. s_id session = j) (sessions st)")
  case None
  with assms show ?thesis by (simp add: updateSession_not_found)
next
  case (Some k)
  let ?tid = "s_taskId (sessions st ! k)"
  consider (none) "us_durationMinutes dto = None \<or> us_durationMinutes dto = Some 0 \<or>
           findIndex (\<lambda>task. t_id task = ?tid) (tasks st) = None"
    | (credit) d m where "us_durationMinutes dto = Some d" "d \<noteq> 0"
        "findIndex (\<lambda>task. t_id task = ?tid) (tasks st) = Some m"
    by (cases "us_durationMinutes dto"; cases "findIndex (\<lambda>task. t_id task = ?tid) (tasks st)") auto
  then show ?thesis
  proof cases
    case none
    have "stored_completedAt (fst (updateSession st j dto now1 now2)) i = stored_completedAt st i"
      by (rule stored_completedAt_tasks) (simp add: updateSession_no_credit[OF Some none])
    with assms show ?thesis by simp
  next
    case credit
    let ?dto' = "emptyUpdateTaskDto\<lparr> u_actualMinutes := Some (t_actualMinutes (tasks st ! m) + d) \<rparr>"
    have "stored_completedAt (fst (updateSession st j dto now1 now2)) i =
          stored_completedAt (fst (updateTask st ?tid ?dto' now1 now2)) i"
      by (rule stored_completedAt_tasks)
         (simp add: updateSession_credit[OF Some credit] updateTask_found[OF credit(3)])
    with assms show ?thesis by (simp add: stored_completedAt_updateTask)
  qed
qed

lemma stored_completedAt_step:
  assumes "stored_completedAt (store s) i = Some c" "x \<noteq> DeleteTask i"
  shows "stored_completedAt (store (step s x)) i = Some c"
proof (cases x)
  case (CreateTask dto newId now)
  with assms show ?thesis
    by (cases "getTaskById (store s) i") (simp_all add: stored_completedAt_def getTaskById_createTask)
next
  case (DeleteTask j)
  with assms show ?thesis
    by (simp add: stored_completedAt_def getTaskById_deleteTask)
next
  case (CreateTasksFromNote noteId tts)
  with assms show ?thesis
    by (cases "getTaskById (store s) i")
       (simp_all add: stored_completedAt_def getTaskById_createTasksFromNote)
next
  case (StartTask taskId now1 now2 newId now3)
  let ?dto = "emptyUpdateTaskDto\<lparr> u_status := Some InProgress \<rparr>"
  have "tasks (store (fst (startTask s taskId now1 now2 newId now3))) =
        tasks (fst (updateTask (store s) taskId ?dto now1 now2))"
    by (cases "findIndex (\<lambda>task. t_id task = taskId) (tasks (store s))")
       (simp_all add: startTask_not_found startTask_found updateTask_not_found updateTask_found Let_def)
  then have "stored_completedAt (store (fst (startTask s taskId now1 now2 newId now3))) i =
             stored_completedAt (fst (updateTask (store s) taskId ?dto now1 now2)) i"
    by (rule stored_completedAt_tasks)
  with assms StartTask show ?thesis by (simp add: stored_completedAt_updateTask)
next
  case (StopTask achievement pending now now1 now2)
  with assms show ?thesis
    by (simp add: stopTask_store stored_completedAt_updateSession split: option.splits)
qed (use assms in \<open>simp_all add: stored_completedAt_updateTask togglePause_def
      loadTaskSessions_def updatePomodoroSettings_def tick_def\<close>)

lemma stored_completedAt_exec:
  "stored_completedAt (store s) i = Some c \<Longrightarrow> DeleteTask i \<notin> set xs \<Longrightarrow>
   stored_completedAt (store (exec s xs)) i = Some c"
proof (induction xs arbitrary: s)
  case Nil
  then show ?case by simp
next
  case (Cons x xs)
  from Cons.prems have "stored_completedAt (store (step s x)) i = Some c"
    by (intro stored_completedAt_step) auto
  with Cons.prems(2) show ?case by (simp add: Cons.IH)
qed

subsection \<open>The example runs, evaluated\<close>

lemmas example_defs = title_only_def workDuration_only_def one_task_def start_one_def
  full_pomodoro_def two_starts_def zero_length_pomodoro_def orphaned_def done_once_def
  task1_def session1_def

lemmas engine_defs = initial_state_def empty_storage_def
  pomodoroTimerAtom_def DEFAULT_POMODORO_SETTINGS_def
  vm_createTask_def createTask_def vm_deleteTask_def deleteTask_def
  startTask_def vm_updateTask_def completeTask_def updateTask_def mergeTask_def
  emptyUpdateTaskDto_def spread_def createSession_def stopTask_def closing_def updateSession_def
  mergeSession_def getTaskById_def openSessions_def closedMinutes_def fresh_task_id_def
  fresh_session_id_def updatePomodoroSettings_def mergeSettings_def tick_def countdown_def
  stored_completedAt_def Let_def

lemma one_task_state:
  "exec initial_state one_task =
     initial_state\<lparr> store := \<lparr> tasks = [task1], sessions = [] \<rparr>, tasksAtom := [task1] \<rparr>"
  by (simp add: example_defs engine_defs)

lemma start_one_state:
  "exec initial_state start_one =
     initial_state
       \<lparr> store := \<lparr> tasks = [task1\<lparr> t_status := InProgress, t_updatedAt := 1000 \<rparr>],
                    sessions = [session1] \<rparr>,
         tasksAtom := [task1\<lparr> t_status := InProgress, t_updatedAt := 1000 \<rparr>],
         activeTaskIdAtom := Some ''t1'',
         currentSessionAtom := Some session1,
         timerState := pomodoroTimerAtom\<lparr> isRunning := True \<rparr> \<rparr>"
  by (simp add: example_defs engine_defs)

lemma orphaned_state:
  "store (exec initial_state orphaned) = \<lparr> tasks = [], sessions = [session1] \<rparr>"
  by (simp add: example_defs engine_defs)

lemma done_once_state:
  "store (exec initial_state done_once) =
     \<lparr> tasks = [task1\<lparr> t_status := Done, t_updatedAt := 6, t_completedAt := Some 7 \<rparr>],
       sessions = [] \<rparr>"
  by (simp add: example_defs engine_defs)

section \<open>The claims\<close>

subsection \<open>C1: at most one open session\<close>

text \<open>
  C1, as amended. The engine opens a session on every \<^verbatim>\<open>startTask\<close> and never checks
  whether one is open already. What holds is conditional on the caller: in every state
  reached from the empty storage by a sequence of operations in which \<^verbatim>\<open>startTask\<close> is
  only issued while no stored session is open, at most one stored session has no
  \<^verbatim>\<open>endedAt\<close>.
\<close>

theorem at_most_one_open_session_if_started_idle:
  assumes "run starts_when_idle initial_state ops = Some s"
  shows "length (openSessions (store s)) \<le> 1"
proof -
  have "length (openSessions (store initial_state)) \<le> 1"
    by (simp add: initial_state_def empty_storage_def openSessions_def)
  then show ?thesis using assms by (rule at_most_one_open_run)
qed

text \<open>The run that creates and starts one task obeys the discipline and has one open session.\<close>

theorem at_most_one_open_session_witness:
  "run starts_when_idle initial_state start_one = Some (exec initial_state start_one) \<and>
   openSessions (store (exec initial_state start_one)) = [session1] \<and>
   length (openSessions (store (exec initial_state start_one))) \<le> 1"
proof -
  have r: "run starts_when_idle initial_state start_one = Some (exec initial_state start_one)"
    by (simp add: example_defs engine_defs)
  have "openSessions (store (exec initial_state start_one)) = [session1]"
    by (simp add: start_one_state openSessions_def session1_def)
  with r at_most_one_open_session_if_started_idle[OF r] show ?thesis by simp
qed

text \<open>
  C1 as stated fails: starting a second task while the first session is open leaves two
  sessions without \<^verbatim>\<open>endedAt\<close>, in a run whose ids are all fresh.
\<close>

theorem two_starts_leave_two_open_sessions:
  "run well_formed initial_state two_starts = Some (exec initial_state two_starts) \<and>
   map s_id (openSessions (store (exec initial_state two_starts))) = [''s1'', ''s2''] \<and>
   \<not> length (openSessions (store (exec initial_state two_starts))) \<le> 1"
  by (simp add: example_defs engine_defs)

subsection \<open>C2: a task's minutes are those of its closed sessions\<close>

text \<open>
  C2. In every state reached from the empty storage by the operations of the engine,
  with fresh ids and with partials of the declared type \<^verbatim>\<open>UpdateTaskDto\<close>, every stored
  task's \<^verbatim>\<open>actualMinutes\<close> is the sum of \<^verbatim>\<open>durationMinutes\<close> over the closed sessions
  with its id.
\<close>

theorem actualMinutes_eq_closed_sessions:
  assumes "run well_formed initial_state ops = Some s" "task \<in> set (tasks (store s))"
  shows "t_actualMinutes task = closedMinutes (store s) (t_id task)"
proof -
  from consistent_initial assms(1) have "consistent s" by (rule consistent_run)
  with assms(2) show ?thesis by (simp add: consistent_def storage_consistent_def)
qed

text \<open>After a session of 25 minutes the task has 25 minutes, and so have its closed sessions.\<close>

theorem actualMinutes_eq_closed_sessions_witness:
  "run well_formed initial_state full_pomodoro = Some (exec initial_state full_pomodoro) \<and>
   map t_actualMinutes (tasks (store (exec initial_state full_pomodoro))) = [25] \<and>
   closedMinutes (store (exec initial_state full_pomodoro)) ''t1'' = 25"
proof -
  let ?s = "exec initial_state full_pomodoro"
  have r: "run well_formed initial_state full_pomodoro = Some ?s"
    by (simp add: example_defs engine_defs)
  have c: "closedMinutes (store ?s) ''t1'' = 25"
    by (simp add: example_defs engine_defs)
  obtain task where t: "tasks (store ?s) = [task]" "t_id task = ''t1''"
    by (simp add: example_defs engine_defs)
  from t have "task \<in> set (tasks (store ?s))" by simp
  from actualMinutes_eq_closed_sessions[OF r this] t c have "t_actualMinutes task = 25" by simp
  with r c t show ?thesis by simp
qed

subsection \<open>C3: stopTask\<close>

text \<open>
  C3, as amended. In a state reached by a well-formed run in which the engine holds a
  current session, that session is stored and open, and \<^verbatim>\<open>stopTask(achievement, pending)\<close>
  succeeds and replaces it by its closed copy: \<^verbatim>\<open>endedAt\<close> is now, \<^verbatim>\<open>durationMinutes\<close> is
  the time between \<^verbatim>\<open>startedAt\<close> and now in whole minutes, rounded down, whatever the
  countdown and the pauses were, and \<^verbatim>\<open>completed\<close> is \<^verbatim>\<open>timeRemaining <= 0\<close>. The timer is
  reset to not running, not paused, \<^verbatim>\<open>workDuration * 60\<close> seconds, and no current session
  is left. When between 0 and 60 seconds have elapsed, \<^verbatim>\<open>durationMinutes\<close> is 0 and no
  task record changes; \<^verbatim>\<open>completed\<close> is false whenever the countdown is still above zero.
\<close>

theorem stopTask_closes_current_session:
  assumes "run well_formed initial_state ops = Some s" "currentSessionAtom s = Some cur"
  shows "\<exists>k < length (sessions (store s)).
           sessions (store s) ! k = cur \<and> s_endedAt cur = None \<and>
           snd (stopTask s achievement pending now now1 now2) = Inr () \<and>
           sessions (store (fst (stopTask s achievement pending now now1 now2))) =
             (sessions (store s))
               [k := cur\<lparr> s_endedAt := Some now,
                          s_durationMinutes := (now - s_startedAt cur) div 60000,
                          s_completed := (timeRemaining (timerState s) \<le> 0),
                          s_achievement := achievement,
                          s_pending := pending \<rparr>] \<and>
           currentSessionAtom (fst (stopTask s achievement pending now now1 now2)) = None \<and>
           timerState (fst (stopTask s achievement pending now now1 now2)) =
             (timerState s)\<lparr> isRunning := False, isPaused := False,
                              timeRemaining := workDuration (pomodoroSettings s) * 60 \<rparr> \<and>
           (0 \<le> now - s_startedAt cur \<and> now - s_startedAt cur < 60000 \<longrightarrow>
              (now - s_startedAt cur) div 60000 = 0 \<and>
              tasks (store (fst (stopTask s achievement pending now now1 now2))) = tasks (store s)) \<and>
           (0 < timeRemaining (timerState s) \<longrightarrow>
              \<not> s_completed (sessions (store (fst (stopTask s achievement pending now now1 now2))) ! k))"
proof -
  from consistent_initial assms(1) have cs: "consistent s" by (rule consistent_run)
  from current_findIndex[OF cs assms(2)] obtain k where
    k: "findIndex (\<lambda>session. s_id session = s_id cur) (sessions (store s)) = Some k"
    and klen: "k < length (sessions (store s))"
    and cur: "sessions (store s) ! k = cur" "s_endedAt cur = None"
    by blast
  let ?dto = "closing cur (timerState s) achievement pending now"
  let ?s' = "fst (stopTask s achievement pending now now1 now2)"
  note proj = stopTask_proj[OF assms(2) k, of achievement pending now now1 now2]
  have ss: "sessions (store ?s') = (sessions (store s))[k := mergeSession cur ?dto]"
    using updateSession_sessions(1)[OF k, of ?dto now1 now2] cur(1) by (simp add: proj(1))
  have ts: "tasks (store ?s') = tasks (store s)" if "(now - s_startedAt cur) div 60000 = 0"
  proof -
    have "us_durationMinutes ?dto = Some 0" using that by (simp add: closing_fields)
    then have "updateSession (store s) (s_id cur) ?dto now1 now2 =
        ((store s)\<lparr> sessions := (sessions (store s))[k := mergeSession (sessions (store s) ! k) ?dto] \<rparr>,
         Inr (mergeSession (sessions (store s) ! k) ?dto))"
      by (intro updateSession_no_credit[OF k]) simp
    then show ?thesis by (simp add: proj(1))
  qed
  have "\<not> s_completed ((sessions (store s))[k := mergeSession cur ?dto] ! k)"
    if "0 < timeRemaining (timerState s)"
    using that klen by (simp add: mergeSession_closing_eq)
  with klen cur ss ts proj(2,3,4) show ?thesis
    by (intro exI[of _ k]) (simp add: mergeSession_closing_eq sub_minute)
qed

text \<open>
  The early stop: ten seconds after the start, with the default 25 minutes, the session
  is closed with no minutes and not completed, and the task is as it was.
\<close>

theorem stopTask_early_stop_witness:
  "run well_formed initial_state start_one = Some (exec initial_state start_one) \<and>
   currentSessionAtom (exec initial_state start_one) = Some session1 \<and>
   snd (stopTask (exec initial_state start_one) None None 11000 11000 11000) = Inr () \<and>
   sessions (store (fst (stopTask (exec initial_state start_one) None None 11000 11000 11000))) =
     [session1\<lparr> s_endedAt := Some 11000, s_durationMinutes := 0, s_completed := False \<rparr>] \<and>
   tasks (store (fst (stopTask (exec initial_state start_one) None None 11000 11000 11000))) =
     tasks (store (exec initial_state start_one)) \<and>
   timeRemaining (timerState (fst (stopTask (exec initial_state start_one) None None 11000 11000 11000))) = 1500"
proof -
  let ?s = "exec initial_state start_one"
  have r: "run well_formed initial_state start_one = Some ?s"
    by (simp add: example_defs engine_defs)
  have cur: "currentSessionAtom ?s = Some session1"
    by (simp add: start_one_state)
  have facts: "sessions (store ?s) = [session1]" "s_startedAt session1 = 1000"
    "timeRemaining (timerState ?s) = 1500" "workDuration (pomodoroSettings ?s) = 25"
    "s_achievement session1 = None" "s_pending session1 = None"
    unfolding start_one_state
    by (simp_all add: session1_def initial_state_def pomodoroTimerAtom_def
        DEFAULT_POMODORO_SETTINGS_def)
  from stopTask_closes_current_session[OF r cur, of None None 11000 11000 11000] facts r cur
  show ?thesis
    by (auto simp: session1_def)
qed

text \<open>
  C3 as stated fails in its last part: with a work duration of 0 minutes the countdown
  is at zero from the start, and the stop ten seconds after the start closes the session
  with \<^verbatim>\<open>completed = true\<close>.
\<close>

theorem early_stop_completed_counterexample:
  "run well_formed initial_state zero_length_pomodoro = Some (exec initial_state zero_length_pomodoro) \<and>
   sessions (store (exec initial_state zero_length_pomodoro)) =
     [session1\<lparr> s_endedAt := Some 11000, s_durationMinutes := 0, s_completed := True \<rparr>]"
  by (simp add: example_defs engine_defs)

subsection \<open>C4: startTask\<close>

text \<open>
  C4. For the id of a stored task, \<^verbatim>\<open>startTask\<close> succeeds; afterwards the task is stored
  with status \<^verbatim>\<open>in_progress\<close> (and a new \<^verbatim>\<open>updatedAt\<close>), a new session of type pomodoro
  for it, started now, with no minutes and not completed, is the last stored session and
  the current one, and the timer is running, not paused, with
  \<^verbatim>\<open>timeRemaining = totalTime = workDuration * 60\<close>.
\<close>

theorem startTask_opens_session:
  assumes "getTaskById (store s) taskId = Some task"
  shows "\<exists>s'. startTask s taskId now1 now2 newId now3 = (s', Inr ()) \<and>
           getTaskById (store s') taskId = Some (task\<lparr> t_status := InProgress, t_updatedAt := now1 \<rparr>) \<and>
           sessions (store s') = sessions (store s) @
             [\<lparr> s_id = newId, s_taskId = taskId, s_startedAt = now3, s_endedAt = None,
                s_durationMinutes = 0, s_type = Pomodoro, s_completed = False,
                s_achievement = None, s_pending = None, s_notes = None \<rparr>] \<and>
           currentSessionAtom s' = Some (last (sessions (store s'))) \<and>
           timerState s' =
             \<lparr> isRunning = True, isPaused = False,
               timeRemaining = workDuration (pomodoroSettings s) * 60,
               totalTime = workDuration (pomodoroSettings s) * 60,
               sessionType = Pomodoro,
               completedPomodoros = completedPomodoros (timerState s) \<rparr>"
proof -
  from getTaskById_findIndex[OF assms] obtain k where
    k: "findIndex (\<lambda>task. t_id task = taskId) (tasks (store s)) = Some k"
    and klen: "k < length (tasks (store s))" and task: "tasks (store s) ! k = task"
    by blast
  let ?updated = "task\<lparr> t_status := InProgress, t_updatedAt := now1 \<rparr>"
  let ?st1 = "(store s)\<lparr> tasks := (tasks (store s))[k := ?updated] \<rparr>"
  have "t_id task = taskId" using k task by (auto dest: findIndex_Some)
  then have "findIndex (\<lambda>task. t_id task = taskId) (tasks ?st1) = Some k"
    using k klen task by (simp add: findIndex_update_same)
  then have "getTaskById ?st1 taskId = Some (tasks ?st1 ! k)"
    by (rule getTaskById_nth)
  then have "getTaskById ?st1 taskId = Some ?updated"
    using klen by simp
  then show ?thesis
    using task
    by (simp add: startTask_found[OF k] Let_def mergeTask_status_only createSession_def getTaskById_def)
qed

text \<open>With the default work duration of 25 minutes the timer starts at 1500 seconds.\<close>

theorem startTask_opens_session_witness:
  "getTaskById (store (exec initial_state one_task)) ''t1'' = Some task1 \<and>
   exec initial_state start_one = fst (startTask (exec initial_state one_task) ''t1'' 1000 1000 ''s1'' 1000) \<and>
   tasks (store (exec initial_state start_one)) = [task1\<lparr> t_status := InProgress, t_updatedAt := 1000 \<rparr>] \<and>
   sessions (store (exec initial_state start_one)) = [session1] \<and>
   timerState (exec initial_state start_one) =
     \<lparr> isRunning = True, isPaused = False, timeRemaining = 1500, totalTime = 1500,
       sessionType = Pomodoro, completedPomodoros = 0 \<rparr>"
proof -
  let ?s0 = "exec initial_state one_task"
  have g: "getTaskById (store ?s0) ''t1'' = Some task1"
    by (simp add: one_task_state getTaskById_def task1_def)
  have e: "exec initial_state start_one = fst (startTask ?s0 ''t1'' 1000 1000 ''s1'' 1000)"
    by (simp add: start_one_def exec_append)
  have facts: "workDuration (pomodoroSettings ?s0) = 25" "completedPomodoros (timerState ?s0) = 0"
    "sessions (store ?s0) = []" "tasks (store ?s0) = [task1]"
    unfolding one_task_state
    by (simp_all add: initial_state_def pomodoroTimerAtom_def DEFAULT_POMODORO_SETTINGS_def)
  from startTask_opens_session[OF g, of 1000 1000 "''s1''" 1000] obtain s' where
    s': "startTask ?s0 ''t1'' 1000 1000 ''s1'' 1000 = (s', Inr ())"
    and rest: "sessions (store s') = sessions (store ?s0) @ [session1]"
      "timerState s' =
         \<lparr> isRunning = True, isPaused = False,
           timeRemaining = workDuration (pomodoroSettings ?s0) * 60,
           totalTime = workDuration (pomodoroSettings ?s0) * 60,
           sessionType = Pomodoro,
           completedPomodoros = completedPomodoros (timerState ?s0) \<rparr>"
    unfolding session1_def by blast
  have "tasks (store (exec initial_state start_one)) = [task1\<lparr> t_status := InProgress, t_updatedAt := 1000 \<rparr>]"
    by (simp add: start_one_state)
  with g e s' rest facts show ?thesis by simp
qed

subsection \<open>C5: natural completion\<close>

text \<open>
  C5. While the timer is running and not paused with \<open>n > 0\<close> seconds remaining, each
  of the first \<open>n - 1\<close> ticks only lowers \<^verbatim>\<open>timeRemaining\<close> by one, and tick \<open>n\<close>, the
  one that brings it to 0, sets \<^verbatim>\<open>isRunning = false\<close>, \<^verbatim>\<open>timeRemaining = 0\<close> and adds
  exactly 1 to \<^verbatim>\<open>completedPomodoros\<close>. No tick touches anything but the timer: the
  storage, and with it the open session and the task's status, and the current session
  stay as they are.
\<close>

theorem natural_completion:
  assumes "isRunning (timerState s)" "\<not> isPaused (timerState s)"
      and "timeRemaining (timerState s) = int n" "0 < n"
  shows "(\<forall>k < n. exec s (replicate k Tick) =
             s\<lparr> timerState := (timerState s)\<lparr> timeRemaining := int n - int k \<rparr> \<rparr>) \<and>
         exec s (replicate n Tick) =
           s\<lparr> timerState := (timerState s)
                \<lparr> isRunning := False, timeRemaining := 0,
                  completedPomodoros := completedPomodoros (timerState s) + 1 \<rparr> \<rparr> \<and>
         store (exec s (replicate n Tick)) = store s \<and>
         currentSessionAtom (exec s (replicate n Tick)) = currentSessionAtom s"
proof -
  have first: "\<forall>k < n. exec s (replicate k Tick) =
             s\<lparr> timerState := (timerState s)\<lparr> timeRemaining := int n - int k \<rparr> \<rparr>"
    using assms by (simp add: ticks_before_zero)
  from assms(4) obtain m where n: "n = Suc m" by (cases n) auto
  have before: "exec s (replicate m Tick) =
      s\<lparr> timerState := (timerState s)\<lparr> timeRemaining := int n - int m \<rparr> \<rparr>"
    using assms(1-3) by (rule ticks_before_zero) (simp add: n)
  have "exec s (replicate n Tick) = tick (exec s (replicate m Tick))"
    unfolding n replicate_Suc_snoc exec_append by simp
  also have "\<dots> = s\<lparr> timerState := (timerState s)
                \<lparr> isRunning := False, timeRemaining := 0,
                  completedPomodoros := completedPomodoros (timerState s) + 1 \<rparr> \<rparr>"
    using assms(1,2) by (simp add: before n tick_def countdown_def Let_def)
  finally have last: "exec s (replicate n Tick) =
           s\<lparr> timerState := (timerState s)
                \<lparr> isRunning := False, timeRemaining := 0,
                  completedPomodoros := completedPomodoros (timerState s) + 1 \<rparr> \<rparr>" .
  from first last show ?thesis by simp
qed

text \<open>
  From the 1500 seconds of a started task: after 1499 ticks the timer still runs with
  one second left, after 1500 it has stopped at 0 with one completed pomodoro, and the
  session is still open and the task still in progress.
\<close>

theorem natural_completion_witness:
  "timerState (exec (exec initial_state start_one) (replicate 1500 Tick)) =
     \<lparr> isRunning = False, isPaused = False, timeRemaining = 0, totalTime = 1500,
       sessionType = Pomodoro, completedPomodoros = 1 \<rparr> \<and>
   timeRemaining (timerState (exec (exec initial_state start_one) (replicate 1499 Tick))) = 1 \<and>
   isRunning (timerState (exec (exec initial_state start_one) (replicate 1499 Tick))) \<and>
   openSessions (store (exec (exec initial_state start_one) (replicate 1500 Tick))) = [session1] \<and>
   map t_status (tasks (store (exec (exec initial_state start_one) (replicate 1500 Tick)))) = [InProgress]"
proof -
  let ?s = "exec initial_state start_one"
  have h: "isRunning (timerState ?s)" "\<not> isPaused (timerState ?s)"
    "timeRemaining (timerState ?s) = int 1500" "0 < (1500::nat)"
    unfolding start_one_state by (simp_all add: initial_state_def pomodoroTimerAtom_def)
  note c5 = natural_completion[OF h]
  from c5 have a: "exec ?s (replicate 1499 Tick) =
      ?s\<lparr> timerState := (timerState ?s)\<lparr> timeRemaining := int 1500 - int 1499 \<rparr> \<rparr>"
    by simp
  from c5 have b: "exec ?s (replicate 1500 Tick) =
      ?s\<lparr> timerState := (timerState ?s)
            \<lparr> isRunning := False, timeRemaining := 0,
              completedPomodoros := completedPomodoros (timerState ?s) + 1 \<rparr> \<rparr>"
    by simp
  show ?thesis
    unfolding a b unfolding start_one_state
    by (simp add: initial_state_def pomodoroTimerAtom_def openSessions_def session1_def)
qed

subsection \<open>C6: completedAt is set once\<close>

text \<open>
  C6. An update of a stored task stamps \<^verbatim>\<open>completedAt\<close> with the current time exactly
  when its partial sets \<^verbatim>\<open>status = done\<close> and the stored \<^verbatim>\<open>completedAt\<close> is unset, and
  leaves \<^verbatim>\<open>completedAt\<close> as it is otherwise. Once a task has a \<^verbatim>\<open>completedAt\<close>, it keeps
  that value through every sequence of operations of the engine that does not delete
  the task, repeated updates to \<^verbatim>\<open>done\<close> included.
\<close>

theorem completedAt_set_once:
  "(getTaskById st i = Some task \<longrightarrow>
      stored_completedAt (fst (updateTask st i dto now1 now2)) i =
        (if u_status dto = Some Done \<and> t_completedAt task = None then Some now2
         else t_completedAt task)) \<and>
   (stored_completedAt (store s) i = Some c \<and> DeleteTask i \<notin> set ops \<longrightarrow>
      stored_completedAt (store (exec s ops)) i = Some c)"
proof (intro conjI impI)
  assume "getTaskById st i = Some task"
  then show "stored_completedAt (fst (updateTask st i dto now1 now2)) i =
        (if u_status dto = Some Done \<and> t_completedAt task = None then Some now2
         else t_completedAt task)"
    by (simp add: stored_completedAt_def getTaskById_updateTask mergeTask_completedAt)
next
  assume "stored_completedAt (store s) i = Some c \<and> DeleteTask i \<notin> set ops"
  then show "stored_completedAt (store (exec s ops)) i = Some c"
    by (simp add: stored_completedAt_exec)
qed

text \<open>
  A task completed at time 7 keeps that time when it is completed again, started and
  completed a third time.
\<close>

theorem completedAt_set_once_witness:
  "stored_completedAt (store (exec initial_state one_task)) ''t1'' = None \<and>
   stored_completedAt
     (fst (updateTask (store (exec initial_state one_task)) ''t1''
             (emptyUpdateTaskDto\<lparr> u_status := Some Done \<rparr>) 6 7)) ''t1'' = Some 7 \<and>
   stored_completedAt (store (exec initial_state done_once)) ''t1'' = Some 7 \<and>
   stored_completedAt
     (store (exec (exec initial_state done_once)
        [CompleteTask ''t1'' 8 9, StartTask ''t1'' 10 11 ''s1'' 12, CompleteTask ''t1'' 13 14]))
     ''t1'' = Some 7"
proof -
  let ?st = "store (exec initial_state one_task)"
  let ?dto = "emptyUpdateTaskDto\<lparr> u_status := Some Done \<rparr>"
  let ?s = "exec initial_state done_once"
  let ?ops = "[CompleteTask ''t1'' 8 9, StartTask ''t1'' 10 11 ''s1'' 12, CompleteTask ''t1'' 13 14]"
  have g: "getTaskById ?st ''t1'' = Some task1" "t_completedAt task1 = None" "u_status ?dto = Some Done"
    by (simp_all add: one_task_state getTaskById_def task1_def emptyUpdateTaskDto_def)
  have n: "stored_completedAt ?st ''t1'' = None"
    by (simp add: stored_completedAt_def g)
  have d: "stored_completedAt (store ?s) ''t1'' = Some 7"
    by (simp add: done_once_state stored_completedAt_def getTaskById_def task1_def)
  have o: "DeleteTask ''t1'' \<notin> set ?ops" by simp
  from completedAt_set_once[of ?st "''t1''" task1 ?dto 6 7 ?s 7 ?ops] g n d o
  show ?thesis by simp
qed

subsection \<open>C7: an unknown task id\<close>

text \<open>
  C7, as amended. For an id that no stored task has, \<^verbatim>\<open>updateTask\<close> fails with the
  error \<^verbatim>\<open>Task not found\<close>, \<^verbatim>\<open>deleteTask\<close> succeeds without deleting anything, and
  \<^verbatim>\<open>getTaskById\<close> returns \<^verbatim>\<open>null\<close>; each of the three leaves the storage as it was.
\<close>

theorem unknown_task_id:
  assumes "\<forall>task \<in> set (tasks st). t_id task \<noteq> i"
  shows "updateTask st i dto now1 now2 = (st, Inl (Error ''Task not found'')) \<and>
         deleteTask st i = (st, Inr ()) \<and>
         getTaskById st i = None"
proof -
  have "findIndex (\<lambda>task. t_id task = i) (tasks st) = None"
    using assms by (simp add: findIndex_None)
  moreover have "filter (\<lambda>task. t_id task \<noteq> i) (tasks st) = tasks st"
    using assms by (simp add: filter_id_conv)
  ultimately show ?thesis
    by (simp add: updateTask_not_found deleteTask_def getTaskById_def find_None_findIndex)
qed

theorem unknown_task_id_witness:
  "updateTask (store (exec initial_state one_task)) ''t2'' emptyUpdateTaskDto 5 6 =
     (store (exec initial_state one_task), Inl (Error ''Task not found'')) \<and>
   deleteTask (store (exec initial_state one_task)) ''t2'' =
     (store (exec initial_state one_task), Inr ()) \<and>
   getTaskById (store (exec initial_state one_task)) ''t2'' = None \<and>
   tasks (store (exec initial_state one_task)) = [task1]"
proof -
  have t: "tasks (store (exec initial_state one_task)) = [task1]"
    by (simp add: one_task_state)
  then have "\<forall>task \<in> set (tasks (store (exec initial_state one_task))). t_id task \<noteq> ''t2''"
    by (simp add: task1_def)
  from unknown_task_id[OF this, of emptyUpdateTaskDto 5 6] t show ?thesis by simp
qed

text \<open>
  C7 as stated fails for \<^verbatim>\<open>deleteTask\<close> and \<^verbatim>\<open>getTaskById\<close>: with the one task \<open>t1\<close>
  stored, deleting the unknown id \<open>t2\<close> resolves, with no error, and looking it up
  returns \<^verbatim>\<open>null\<close>.
\<close>

theorem deleteTask_unknown_id_succeeds:
  "getTaskById (store (exec initial_state one_task)) ''t2'' = None \<and>
   snd (deleteTask (store (exec initial_state one_task)) ''t2'') = Inr () \<and>
   snd (deleteTask (store (exec initial_state one_task)) ''t2'') \<noteq> Inl (Error ''Task not found'')"
  by (simp add: one_task_state getTaskById_def deleteTask_def task1_def)

subsection \<open>C8: the empty partial\<close>

text \<open>
  C8. For the id of a stored task, \<^verbatim>\<open>updateTask(id, {})\<close> succeeds and replaces that
  task, at its place in the stored list, by the same record with \<^verbatim>\<open>updatedAt\<close> set to
  now: no other field of it, no other task and no session changes.
\<close>

theorem updateTask_empty_partial:
  assumes "getTaskById st i = Some task"
  shows "\<exists>k < length (tasks st). tasks st ! k = task \<and>
           updateTask st i emptyUpdateTaskDto now1 now2 =
             (st\<lparr> tasks := (tasks st)[k := task\<lparr> t_updatedAt := now1 \<rparr>] \<rparr>,
              Inr (task\<lparr> t_updatedAt := now1 \<rparr>))"
proof -
  from assms obtain k where k: "findIndex (\<lambda>task. t_id task = i) (tasks st) = Some k"
    "k < length (tasks st)" "tasks st ! k = task"
    by (blast dest: getTaskById_findIndex)
  then show ?thesis
    by (auto simp: updateTask_found mergeTask_empty intro!: exI[of _ k])
qed

theorem updateTask_empty_partial_witness:
  "updateTask (store (exec initial_state one_task)) ''t1'' emptyUpdateTaskDto 5 6 =
     (\<lparr> tasks = [task1\<lparr> t_updatedAt := 5 \<rparr>], sessions = [] \<rparr>, Inr (task1\<lparr> t_updatedAt := 5 \<rparr>))"
proof -
  let ?st = "store (exec initial_state one_task)"
  have st: "?st = \<lparr> tasks = [task1], sessions = [] \<rparr>" by (simp add: one_task_state)
  have g: "getTaskById ?st ''t1'' = Some task1"
    by (simp add: st getTaskById_def task1_def)
  from updateTask_empty_partial[OF g, of 5 6] obtain k where "k < length (tasks ?st)"
    and u: "updateTask ?st ''t1'' emptyUpdateTaskDto 5 6 =
             (?st\<lparr> tasks := (tasks ?st)[k := task1\<lparr> t_updatedAt := 5 \<rparr>] \<rparr>,
              Inr (task1\<lparr> t_updatedAt := 5 \<rparr>))"
    by blast
  then have "k = 0" by (simp add: st)
  with u show ?thesis by (simp add: st)
qed

subsection \<open>C9: the remaining time is never negative\<close>

text \<open>
  C9. Let the stored configuration have a non-negative \<^verbatim>\<open>workDuration\<close> and let every
  later change of the settings keep it non-negative. Then in every state the engine
  reaches from its initial state, \<^verbatim>\<open>timeRemaining\<close> is non-negative, it is so after one
  more tick, and a tick of the running, unpaused timer that would bring it to 0 or below
  leaves it at exactly 0.
\<close>

theorem timeRemaining_nonneg:
  assumes "0 \<le> workDuration settings"
      and "run keeps_workDuration_nonneg (initial_state\<lparr> pomodoroSettings := settings \<rparr>) ops = Some s"
  shows "0 \<le> timeRemaining (timerState s) \<and>
         0 \<le> timeRemaining (timerState (step s Tick)) \<and>
         (isRunning (timerState s) \<and> \<not> isPaused (timerState s) \<and> timeRemaining (timerState s) - 1 \<le> 0
            \<longrightarrow> timeRemaining (timerState (step s Tick)) = 0)"
proof -
  have "timer_nonneg (initial_state\<lparr> pomodoroSettings := settings \<rparr>)"
    using assms(1) by (simp add: timer_nonneg_def initial_state_def pomodoroTimerAtom_def)
  then have s: "timer_nonneg s" using assms(2) by (rule timer_nonneg_run)
  then have "timer_nonneg (step s Tick)" by (rule timer_nonneg_step) simp
  with s show ?thesis
    by (simp add: timer_nonneg_def tick_def countdown_clamps)
qed

text \<open>
  With a work duration of 0 a started timer has 0 seconds left; the next tick would
  bring it to -1 and leaves it at 0.
\<close>

theorem timeRemaining_nonneg_witness:
  "0 \<le> timeRemaining (timerState
          (exec (initial_state\<lparr> pomodoroSettings := DEFAULT_POMODORO_SETTINGS\<lparr> workDuration := 0 \<rparr> \<rparr>)
             start_one)) \<and>
   timeRemaining (timerState
          (step (exec (initial_state\<lparr> pomodoroSettings := DEFAULT_POMODORO_SETTINGS\<lparr> workDuration := 0 \<rparr> \<rparr>)
             start_one) Tick)) = 0"
proof -
  let ?cfg = "DEFAULT_POMODORO_SETTINGS\<lparr> workDuration := 0 \<rparr>"
  let ?s = "exec (initial_state\<lparr> pomodoroSettings := ?cfg \<rparr>) start_one"
  have w: "0 \<le> workDuration ?cfg" by simp
  have r: "run keeps_workDuration_nonneg (initial_state\<lparr> pomodoroSettings := ?cfg \<rparr>) start_one = Some ?s"
    by (simp add: example_defs)
  have t: "isRunning (timerState ?s)" "\<not> isPaused (timerState ?s)" "timeRemaining (timerState ?s) = 0"
    by (simp_all add: example_defs engine_defs)
  from timeRemaining_nonneg[OF w r] t show ?thesis by simp
qed

subsection \<open>C10: closing an orphaned session\<close>

text \<open>
  C10. When the session with the given id is stored and no stored task has its
  \<^verbatim>\<open>taskId\<close>, \<^verbatim>\<open>updateSession\<close> succeeds: it stores the merged session in place of the
  old one and returns it, and changes nothing else, so no task record is modified and
  the minutes are credited to nobody.
\<close>

theorem updateSession_orphaned:
  assumes "findIndex (\<lambda>session. s_id session = i) (sessions st) = Some k"
      and "getTaskById st (s_taskId (sessions st ! k)) = None"
  shows "updateSession st i dto now1 now2 =
           (st\<lparr> sessions := (sessions st)[k := mergeSession (sessions st ! k) dto] \<rparr>,
            Inr (mergeSession (sessions st ! k) dto))"
proof -
  have "findIndex (\<lambda>task. t_id task = s_taskId (sessions st ! k)) (tasks st) = None"
    using assms(2) by (simp add: getTaskById_def find_None_findIndex)
  then show ?thesis by (intro updateSession_no_credit[OF assms(1)]) simp
qed

text \<open>
  The task is deleted while its session is open; closing the session with five minutes
  succeeds and the list of tasks stays empty.
\<close>

theorem updateSession_orphaned_witness:
  "getTaskById (store (exec initial_state orphaned)) ''t1'' = None \<and>
   updateSession (store (exec initial_state orphaned)) ''s1''
       (closing session1 pomodoroTimerAtom None None 301000) 301000 301000 =
     (\<lparr> tasks = [],
        sessions = [session1\<lparr> s_endedAt := Some 301000, s_durationMinutes := 5 \<rparr>] \<rparr>,
      Inr (session1\<lparr> s_endedAt := Some 301000, s_durationMinutes := 5 \<rparr>))"
proof -
  let ?st = "store (exec initial_state orphaned)"
  have k: "findIndex (\<lambda>session. s_id session = ''s1'') (sessions ?st) = Some 0"
    by (simp add: orphaned_state session1_def)
  have g: "getTaskById ?st (s_taskId (sessions ?st ! 0)) = None"
    by (simp add: orphaned_state getTaskById_def)
  have g': "getTaskById ?st ''t1'' = None"
    by (simp add: orphaned_state getTaskById_def)
  have m: "mergeSession session1 (closing session1 pomodoroTimerAtom None None 301000) =
             session1\<lparr> s_endedAt := Some 301000, s_durationMinutes := 5 \<rparr>"
    by (simp add: mergeSession_closing_eq session1_def pomodoroTimerAtom_def)
  from updateSession_orphaned[OF k g, of "closing session1 pomodoroTimerAtom None None 301000" 301000 301000] g' m
  show ?thesis by (simp add: orphaned_state)
qed

end
